theory Spec2Isabelle
  imports Complex_Main
begin

section \<open>Marketplace retrieval engine: vector index and hybrid search\<close>

text \<open>
  A shallow embedding of \<^verbatim>\<open>src/context/vector-store.ts\<close> (class \<^verbatim>\<open>LocalVectorStore\<close>,
  function \<^verbatim>\<open>cosineSimilarity\<close>) and of \<^verbatim>\<open>src/marketplace/search.ts\<close> (class
  \<^verbatim>\<open>MarketplaceSearch\<close>).

  Conventions of the embedding.
  \<^item> A JavaScript \<^verbatim>\<open>number\<close> that holds a score or a vector component that is computed
    with is a \<open>real\<close>, a finite number, and the arithmetic of the index and of the search
    engine is exact. The special values of IEEE doubles (\<^verbatim>\<open>Infinity\<close>, \<^verbatim>\<open>NaN\<close>) and overflow
    are modelled where a property depends on them: in the type \<open>number\<close>, in the second
    embedding of \<^verbatim>\<open>cosineSimilarity\<close> and in the values that \<^verbatim>\<open>JSON.stringify\<close> writes.
  \<^item> \<^verbatim>\<open>add\<close> stores the components of an embedding and counts them, and does nothing else
    with them, so their type is a parameter \<open>'n\<close> of the index: \<^verbatim>\<open>query\<close> is about the index of
    reals, \<^verbatim>\<open>save\<close> about the index of numbers with their special values.
  \<^item> A \<^verbatim>\<open>number\<close> that holds a count (\<^verbatim>\<open>dimensions\<close>, \<^verbatim>\<open>topK\<close>, \<^verbatim>\<open>limit\<close>) is a \<open>nat\<close>,
    so \<^verbatim>\<open>slice(0, n)\<close> is \<open>take n\<close>.
  \<^item> A \<^verbatim>\<open>Map\<close> is an association list with distinct keys in insertion order, which is
    the order \<^verbatim>\<open>Map.values()\<close> and \<^verbatim>\<open>for ... of\<close> follow.
  \<^item> A \<^verbatim>\<open>throw\<close> is the left injection of a sum; a method that mutates \<^verbatim>\<open>this\<close> returns
    its outcome together with the object after the call.
  \<^item> \<^verbatim>\<open>Array.prototype.sort\<close> is stable; with the comparator \<^verbatim>\<open>b.score - a.score\<close>
    it is the stable sort by descending score.
  \<^item> \<^verbatim>\<open>metadata: Record<string, unknown>\<close> is a list of key/value pairs, the properties
    of the object in their order, each key once. The vector index does not look at the
    values, so their type is a parameter \<open>'v\<close>. Persistence is about the index of
    JavaScript values (\<open>jsval\<close>); the search engine reads its index through the cast
    \<^verbatim>\<open>metadata?.packageId as string | undefined\<close>, so its index is the one of strings.
\<close>

subsection \<open>Errors\<close>

datatype error =
    DimensionMismatch nat nat     \<comment> \<open>"dimension mismatch: expected d, got n" (add, query)\<close>
  | VectorLengthMismatch nat nat  \<comment> \<open>"Vector length mismatch: n vs m" (cosineSimilarity)\<close>
  | ENOENT                        \<comment> \<open>readFileSync on a path that does not exist\<close>
  | SyntaxError                   \<comment> \<open>JSON.parse on text that is not JSON\<close>
  | TypeError                     \<comment> \<open>a property of \<^verbatim>\<open>null\<close> is read, or a value is not iterable\<close>
  | EmbedFailure                  \<comment> \<open>the embedding provider rejected the call\<close>

subsection \<open>JavaScript values\<close>

text \<open>
  A \<^verbatim>\<open>number\<close> with the special values of IEEE doubles. A finite value is a real: the
  model does not round.
\<close>

datatype number = Finite real | NaN | PosInfinity | NegInfinity

text \<open>
  The values that \<^verbatim>\<open>unknown\<close> ranges over, as far as \<^verbatim>\<open>JSON.stringify\<close> tells them
  apart: \<^verbatim>\<open>undefined\<close>, \<^verbatim>\<open>null\<close>, booleans, numbers, strings, \<^verbatim>\<open>Date\<close> objects (with the
  text their \<^verbatim>\<open>toISOString\<close> gives), arrays and plain objects (the properties in their
  order). Functions and symbols are treated by \<^verbatim>\<open>JSON.stringify\<close> as \<^verbatim>\<open>undefined\<close> is.
  A \<^verbatim>\<open>BigInt\<close> and a cyclic object, on which it throws, are not values of this type.
  The value that \<^verbatim>\<open>JSON.parse\<close> returns is of this type too: it has no \<^verbatim>\<open>undefined\<close>, no
  \<^verbatim>\<open>Date\<close> and no number that is not finite.
\<close>

datatype jsval =
    JUndefined
  | JNull
  | JBool bool
  | JNum number
  | JStr string
  | JDate string
  | JArr "jsval list"
  | JObj "(string \<times> jsval) list"

subsection \<open>Types of the vector store\<close>

type_synonym 'v metadata = "(string \<times> 'v) list"

record ('n, 'v) VectorEntry =
  entry_id :: string
  embedding :: "'n list"
  metadata :: "'v metadata"

text \<open>The \<^verbatim>\<open>SearchResult\<close> of the vector store (the search engine has its own).\<close>

record 'v VectorSearchResult =
  result_id :: string
  similarity :: real   \<comment> \<open>field \<^verbatim>\<open>score\<close>\<close>
  result_metadata :: "'v metadata"

record ('n, 'v) StoredData =
  stored_entries :: "('n, 'v) VectorEntry list"
  stored_dimensions :: nat

record ('n, 'v) LocalVectorStore =
  entries :: "(string \<times> ('n, 'v) VectorEntry) list"
  dimensions :: nat

text \<open>An item of \<^verbatim>\<open>addBatch\<close>; its metadata is optional.\<close>

record ('n, 'v) BatchItem =
  item_id :: string
  item_embedding :: "'n list"
  item_metadata :: "'v metadata option"

subsection \<open>JavaScript Map and Array operations\<close>

text \<open>\<^verbatim>\<open>Map.prototype.set\<close>: an existing key keeps its position, a new key goes last.\<close>

fun map_set :: "'k \<Rightarrow> 'v \<Rightarrow> ('k \<times> 'v) list \<Rightarrow> ('k \<times> 'v) list" where
  "map_set k v [] = [(k, v)]"
| "map_set k v (p # ps) = (if fst p = k then (k, v) # ps else p # map_set k v ps)"

definition map_get :: "'k \<Rightarrow> ('k \<times> 'v) list \<Rightarrow> 'v option" where
  "map_get k m = map_of m k"

definition map_has :: "'k \<Rightarrow> ('k \<times> 'v) list \<Rightarrow> bool" where
  "map_has k m = (map_of m k \<noteq> None)"

definition map_delete :: "'k \<Rightarrow> ('k \<times> 'v) list \<Rightarrow> ('k \<times> 'v) list" where
  "map_delete k m = filter (\<lambda>p. fst p \<noteq> k) m"

definition map_values :: "('k \<times> 'v) list \<Rightarrow> 'v list" where
  "map_values m = map snd m"

text \<open>\<^verbatim>\<open>xs.sort((a, b) => f(b) - f(a))\<close>: stable, descending in \<open>f\<close>.\<close>

definition sort_desc :: "('a \<Rightarrow> real) \<Rightarrow> 'a list \<Rightarrow> 'a list" where
  "sort_desc f xs = sort_key (\<lambda>x. - f x) xs"

subsection \<open>cosineSimilarity\<close>

text \<open>
  The loop \<^verbatim>\<open>for (let i = 0; i < a.length; i++)\<close> over two arrays of equal length, with
  the three accumulators \<^verbatim>\<open>dotProduct\<close>, \<^verbatim>\<open>normA\<close>, \<^verbatim>\<open>normB\<close>.
\<close>

fun cosine_loop :: "real list \<Rightarrow> real list \<Rightarrow> real \<times> real \<times> real \<Rightarrow> real \<times> real \<times> real" where
  "cosine_loop (x # xs) (y # ys) (dotProduct, normA, normB) =
     cosine_loop xs ys (dotProduct + x * y, normA + x * x, normB + y * y)"
| "cosine_loop _ _ acc = acc"

definition cosineSimilarity :: "real list \<Rightarrow> real list \<Rightarrow> error + real" where
  "cosineSimilarity a b =
     (if length a \<noteq> length b then Inl (VectorLengthMismatch (length a) (length b))
      else
        (case cosine_loop a b (0, 0, 0) of (dotProduct, normA, normB) \<Rightarrow>
           (let denominator = sqrt normA * sqrt normB
            in if denominator = 0 then Inr 0 else Inr (dotProduct / denominator))))"

text \<open>
  The same function on numbers with their special values. Each operation follows IEEE 754
  on the special values; a finite result is kept exact, and from the magnitude \<open>2^1024\<close>
  on it overflows, as a double operation does whatever the rounding. Zero has no sign in
  the model.
\<close>

definition overflow :: "real \<Rightarrow> number" where
  "overflow x =
     (if 2 ^ 1024 \<le> x then PosInfinity else if x \<le> - (2 ^ 1024) then NegInfinity else Finite x)"

text \<open>The sign of a number that is not \<^verbatim>\<open>NaN\<close>: \<open>-1\<close>, \<open>0\<close> or \<open>1\<close>.\<close>

fun number_sign :: "number \<Rightarrow> real" where
  "number_sign (Finite x) = sgn x"
| "number_sign PosInfinity = 1"
| "number_sign NegInfinity = - 1"
| "number_sign NaN = 0"

definition infinity_of_sign :: "real \<Rightarrow> number" where
  "infinity_of_sign sg = (if sg = 0 then NaN else if 0 < sg then PosInfinity else NegInfinity)"

fun number_times :: "number \<Rightarrow> number \<Rightarrow> number" where
  "number_times NaN _ = NaN"
| "number_times _ NaN = NaN"
| "number_times (Finite x) (Finite y) = overflow (x * y)"
| "number_times a b = infinity_of_sign (number_sign a * number_sign b)"

fun number_plus :: "number \<Rightarrow> number \<Rightarrow> number" where
  "number_plus NaN _ = NaN"
| "number_plus _ NaN = NaN"
| "number_plus (Finite x) (Finite y) = overflow (x + y)"
| "number_plus PosInfinity NegInfinity = NaN"
| "number_plus NegInfinity PosInfinity = NaN"
| "number_plus (Finite x) b = b"
| "number_plus a _ = a"

fun number_sqrt :: "number \<Rightarrow> number" where
  "number_sqrt (Finite x) = (if x < 0 then NaN else Finite (sqrt x))"
| "number_sqrt PosInfinity = PosInfinity"
| "number_sqrt _ = NaN"

fun number_divide :: "number \<Rightarrow> number \<Rightarrow> number" where
  "number_divide NaN _ = NaN"
| "number_divide _ NaN = NaN"
| "number_divide (Finite x) (Finite y) =
     (if y = 0 then infinity_of_sign (sgn x) else overflow (x / y))"
| "number_divide (Finite x) _ = Finite 0"
| "number_divide a (Finite y) = infinity_of_sign (number_sign a * (if y < 0 then - 1 else 1))"
| "number_divide _ _ = NaN"

fun cosine_loop_ieee ::
  "number list \<Rightarrow> number list \<Rightarrow> number \<times> number \<times> number \<Rightarrow> number \<times> number \<times> number" where
  "cosine_loop_ieee (x # xs) (y # ys) (dotProduct, normA, normB) =
     cosine_loop_ieee xs ys
       (number_plus dotProduct (number_times x y),
        number_plus normA (number_times x x),
        number_plus normB (number_times y y))"
| "cosine_loop_ieee _ _ acc = acc"

definition cosineSimilarity_ieee :: "number list \<Rightarrow> number list \<Rightarrow> error + number" where
  "cosineSimilarity_ieee a b =
     (if length a \<noteq> length b then Inl (VectorLengthMismatch (length a) (length b))
      else
        (case cosine_loop_ieee a b (Finite 0, Finite 0, Finite 0) of (dotProduct, normA, normB) \<Rightarrow>
           (let denominator = number_times (number_sqrt normA) (number_sqrt normB)
            in if denominator = Finite 0 then Inr (Finite 0)
               else Inr (number_divide dotProduct denominator))))"

subsection \<open>LocalVectorStore\<close>

definition new_LocalVectorStore :: "nat \<Rightarrow> ('n, 'v) LocalVectorStore" where
  "new_LocalVectorStore d = \<lparr>entries = [], dimensions = d\<rparr>"

definition add ::
  "('n, 'v) LocalVectorStore \<Rightarrow> string \<Rightarrow> 'n list \<Rightarrow> 'v metadata \<Rightarrow>
   (error + unit) \<times> ('n, 'v) LocalVectorStore" where
  "add s i e m =
     (if length e \<noteq> dimensions s
      then (Inl (DimensionMismatch (dimensions s) (length e)), s)
      else (Inr (),
            s\<lparr>entries := map_set i \<lparr>entry_id = i, embedding = e, metadata = m\<rparr> (entries s)\<rparr>))"

fun addBatch ::
  "('n, 'v) LocalVectorStore \<Rightarrow> ('n, 'v) BatchItem list \<Rightarrow> (error + unit) \<times> ('n, 'v) LocalVectorStore" where
  "addBatch s [] = (Inr (), s)"
| "addBatch s (item # items) =
     (case add s (item_id item) (item_embedding item)
                 (case item_metadata item of None \<Rightarrow> [] | Some m \<Rightarrow> m) of
        (Inl err, s') \<Rightarrow> (Inl err, s')
      | (Inr _, s') \<Rightarrow> addBatch s' items)"

text \<open>The loop of \<^verbatim>\<open>query\<close> that scores every entry and pushes it on \<^verbatim>\<open>scored\<close>.\<close>

fun score_loop ::
  "real list \<Rightarrow> (real, 'v) VectorEntry list \<Rightarrow> 'v VectorSearchResult list \<Rightarrow>
   error + 'v VectorSearchResult list" where
  "score_loop q [] scored = Inr scored"
| "score_loop q (entry # rest) scored =
     (case cosineSimilarity q (embedding entry) of
        Inl err \<Rightarrow> Inl err
      | Inr score \<Rightarrow>
          score_loop q rest
            (scored @ [\<lparr>result_id = entry_id entry, similarity = score,
                        result_metadata = metadata entry\<rparr>]))"

definition query ::
  "(real, 'v) LocalVectorStore \<Rightarrow> real list \<Rightarrow> nat \<Rightarrow> error + 'v VectorSearchResult list" where
  "query s q topK =
     (if length q \<noteq> dimensions s then Inl (DimensionMismatch (dimensions s) (length q))
      else
        (case score_loop q (map_values (entries s)) [] of
           Inl err \<Rightarrow> Inl err
         | Inr scored \<Rightarrow> Inr (take topK (sort_desc similarity scored))))"

definition size_of :: "('n, 'v) LocalVectorStore \<Rightarrow> nat" where
  "size_of s = length (entries s)"

definition has :: "('n, 'v) LocalVectorStore \<Rightarrow> string \<Rightarrow> bool" where
  "has s i = map_has i (entries s)"

definition get :: "('n, 'v) LocalVectorStore \<Rightarrow> string \<Rightarrow> ('n, 'v) VectorEntry option" where
  "get s i = map_get i (entries s)"

definition delete :: "('n, 'v) LocalVectorStore \<Rightarrow> string \<Rightarrow> bool \<times> ('n, 'v) LocalVectorStore" where
  "delete s i = (map_has i (entries s), s\<lparr>entries := map_delete i (entries s)\<rparr>)"

definition clear :: "('n, 'v) LocalVectorStore \<Rightarrow> ('n, 'v) LocalVectorStore" where
  "clear s = s\<lparr>entries := []\<rparr>"

subsection \<open>Persistence\<close>

text \<open>
  The value that \<^verbatim>\<open>JSON.parse\<close> reads back from the text \<^verbatim>\<open>JSON.stringify\<close> writes for a
  value in an array or at the top: \<^verbatim>\<open>undefined\<close> and the numbers that are not finite
  become \<^verbatim>\<open>null\<close>, a \<^verbatim>\<open>Date\<close> becomes its ISO string, and a property whose value is
  \<^verbatim>\<open>undefined\<close> is left out of its object.
\<close>

fun json_of :: "jsval \<Rightarrow> jsval"
  and json_of_properties :: "(string \<times> jsval) list \<Rightarrow> (string \<times> jsval) list" where
  "json_of JUndefined = JNull"
| "json_of JNull = JNull"
| "json_of (JBool b) = JBool b"
| "json_of (JNum n) = (case n of Finite x \<Rightarrow> JNum (Finite x) | _ \<Rightarrow> JNull)"
| "json_of (JStr s) = JStr s"
| "json_of (JDate t) = JStr t"
| "json_of (JArr vs) = JArr (map json_of vs)"
| "json_of (JObj ps) = JObj (json_of_properties ps)"
| "json_of_properties [] = []"
| "json_of_properties (p # ps) =
     (if snd p = JUndefined then json_of_properties ps
      else (fst p, json_of (snd p)) # json_of_properties ps)"

text \<open>
  The file system is a map from paths to file contents. The text of a file is abstracted
  to what \<^verbatim>\<open>JSON.parse\<close> makes of it: either it is rejected, or it is a JSON value, of any
  shape. Writing always succeeds and \<^verbatim>\<open>mkdirSync\<close> has no counterpart, since there are
  no directories.
\<close>

datatype file_content = NotJson | Json jsval

type_synonym filesystem = "string \<Rightarrow> file_content option"

text \<open>The objects of the index as JavaScript values, with their properties in order.\<close>

definition js_of_entry :: "(number, jsval) VectorEntry \<Rightarrow> jsval" where
  "js_of_entry e =
     JObj [(''id'', JStr (entry_id e)),
           (''embedding'', JArr (map JNum (embedding e))),
           (''metadata'', JObj (metadata e))]"

definition js_of_data :: "(number, jsval) StoredData \<Rightarrow> jsval" where
  "js_of_data d =
     JObj [(''entries'', JArr (map js_of_entry (stored_entries d))),
           (''dimensions'', JNum (Finite (real (stored_dimensions d))))]"

definition save :: "(number, jsval) LocalVectorStore \<Rightarrow> string \<Rightarrow> filesystem \<Rightarrow> filesystem" where
  "save s filePath fs =
     (let data = \<lparr>stored_entries = map_values (entries s), stored_dimensions = dimensions s\<rparr>
      in fs(filePath \<mapsto> Json (json_of (js_of_data data))))"

text \<open>
  \<^verbatim>\<open>load\<close> casts the parsed value to \<^verbatim>\<open>StoredData\<close> without a check and writes into the
  private fields of the new object, so the object it returns holds whatever the file
  held: any value as \<^verbatim>\<open>dimensions\<close>, any value as a key or an entry of the \<^verbatim>\<open>Map\<close>.
\<close>

record LoadedStore =
  loaded_entries :: "(jsval \<times> jsval) list"
  loaded_dimensions :: jsval

text \<open>
  \<^verbatim>\<open>new LocalVectorStore(data.dimensions)\<close>. Reading a property of \<^verbatim>\<open>null\<close> throws. An
  object has the property or not; a string, a number, a boolean and an array have no
  property of this name. The default 768 of the constructor stands in for \<^verbatim>\<open>undefined\<close>
  only.
\<close>

definition load_dimensions :: "jsval \<Rightarrow> error + jsval" where
  "load_dimensions data =
     (case data of
        JNull \<Rightarrow> Inl TypeError
      | JUndefined \<Rightarrow> Inl TypeError
      | JObj ps \<Rightarrow>
          (case map_of ps ''dimensions'' of
             None \<Rightarrow> Inr (JNum (Finite 768))
           | Some JUndefined \<Rightarrow> Inr (JNum (Finite 768))
           | Some d \<Rightarrow> Inr d)
      | _ \<Rightarrow> Inr (JNum (Finite 768)))"

text \<open>
  The sequence that \<^verbatim>\<open>for (const entry of data.entries)\<close> walks. An array gives its
  elements and a string its characters. \<^verbatim>\<open>undefined\<close> (the property is absent, or the data
  is a string, a number or a boolean), \<^verbatim>\<open>null\<close>, a number, a boolean and an object are
  not iterable, and neither is the method \<^verbatim>\<open>entries\<close> that the data has when it is an
  array itself.
\<close>

definition load_entries :: "jsval \<Rightarrow> error + jsval list" where
  "load_entries data =
     (case data of
        JObj ps \<Rightarrow>
          (case map_of ps ''entries'' of
             Some (JArr es) \<Rightarrow> Inr es
           | Some (JStr t) \<Rightarrow> Inr (map (\<lambda>c. JStr [c]) t)
           | _ \<Rightarrow> Inl TypeError)
      | _ \<Rightarrow> Inl TypeError)"

text \<open>\<^verbatim>\<open>entry.id\<close>: throws on \<^verbatim>\<open>null\<close>, and is \<^verbatim>\<open>undefined\<close> where there is no such property.\<close>

definition entry_key :: "jsval \<Rightarrow> error + jsval" where
  "entry_key entry =
     (case entry of
        JNull \<Rightarrow> Inl TypeError
      | JUndefined \<Rightarrow> Inl TypeError
      | JObj ps \<Rightarrow> (case map_of ps ''id'' of None \<Rightarrow> Inr JUndefined | Some k \<Rightarrow> Inr k)
      | _ \<Rightarrow> Inr JUndefined)"

text \<open>
  The keys of a \<^verbatim>\<open>Map\<close> are compared by SameValueZero: primitive values by their value,
  objects by identity, and every object that \<^verbatim>\<open>JSON.parse\<close> made is a new one.
\<close>

fun same_value_zero :: "jsval \<Rightarrow> jsval \<Rightarrow> bool" where
  "same_value_zero (JArr _) _ = False"
| "same_value_zero (JObj _) _ = False"
| "same_value_zero (JDate _) _ = False"
| "same_value_zero k k' = (k = k')"

fun js_map_set :: "jsval \<Rightarrow> 'a \<Rightarrow> (jsval \<times> 'a) list \<Rightarrow> (jsval \<times> 'a) list" where
  "js_map_set k v [] = [(k, v)]"
| "js_map_set k v (p # ps) =
     (if same_value_zero (fst p) k then (k, v) # ps else p # js_map_set k v ps)"

text \<open>The loop of \<^verbatim>\<open>load\<close>: \<^verbatim>\<open>store.entries.set(entry.id, entry)\<close>, with no check.\<close>

fun load_loop :: "LoadedStore \<Rightarrow> jsval list \<Rightarrow> error + LoadedStore" where
  "load_loop store [] = Inr store"
| "load_loop store (entry # rest) =
     (case entry_key entry of
        Inl err \<Rightarrow> Inl err
      | Inr k \<Rightarrow>
          load_loop (store\<lparr>loaded_entries := js_map_set k entry (loaded_entries store)\<rparr>) rest)"

definition load :: "filesystem \<Rightarrow> string \<Rightarrow> error + LoadedStore" where
  "load fs filePath =
     (case fs filePath of
        None \<Rightarrow> Inl ENOENT
      | Some NotJson \<Rightarrow> Inl SyntaxError
      | Some (Json data) \<Rightarrow>
          (case load_dimensions data of
             Inl err \<Rightarrow> Inl err
           | Inr d \<Rightarrow>
               (case load_entries data of
                  Inl err \<Rightarrow> Inl err
                | Inr es \<Rightarrow> load_loop \<lparr>loaded_entries = [], loaded_dimensions = d\<rparr> es)))"

text \<open>
  The object that \<^verbatim>\<open>load\<close> returns is an index of the class when it is the image of one:
  string keys, entries with the three properties, a natural number as dimensions.
\<close>

definition js_of_store :: "(number, jsval) LocalVectorStore \<Rightarrow> LoadedStore" where
  "js_of_store s =
     \<lparr>loaded_entries = map (\<lambda>p. (JStr (fst p), js_of_entry (snd p))) (entries s),
      loaded_dimensions = JNum (Finite (real (dimensions s)))\<rparr>"

subsection \<open>Invariants of a store\<close>

text \<open>
  The keys of a \<^verbatim>\<open>Map\<close> are distinct, and every write of the class stores an entry under
  its own id.
\<close>

definition map_ok :: "('n, 'v) LocalVectorStore \<Rightarrow> bool" where
  "map_ok s = (distinct (map fst (entries s)) \<and> list_all (\<lambda>p. entry_id (snd p) = fst p) (entries s))"

text \<open>The dimension invariant: every stored embedding has the length of the index.\<close>

definition dims_ok :: "('n, 'v) LocalVectorStore \<Rightarrow> bool" where
  "dims_ok s = list_all (\<lambda>p. length (embedding (snd p)) = dimensions s) (entries s)"

subsection \<open>The Listing Store\<close>

record PackageListing =
  listing_id :: string   \<comment> \<open>field \<^verbatim>\<open>id\<close>\<close>
  name :: string
  description :: string
  tags :: string
  priceMon :: real
  tokenAddress :: "string option"
  curveAddress :: "string option"
  creatorAddress :: "string option"
  packagePath :: string
  fileCount :: nat
  chunkCount :: nat
  entityCount :: nat
  timesSold :: nat
  createdAt :: string

text \<open>
  \<^verbatim>\<open>MarketplaceRegistry\<close> answers from an SQL database. The search engine uses two of its
  queries, which are parameters here: \<^verbatim>\<open>searchByKeyword\<close> (all rows matching the pattern,
  no \<^verbatim>\<open>LIMIT\<close>) and \<^verbatim>\<open>getPackage\<close> (\<^verbatim>\<open>null\<close> when no row has the id).
\<close>

record MarketplaceRegistry =
  searchByKeyword :: "string \<Rightarrow> PackageListing list"
  getPackage :: "string \<Rightarrow> PackageListing option"

subsection \<open>MarketplaceSearch\<close>

datatype MatchType = Keyword | Semantic | Combined

record SearchResult =
  listing :: PackageListing
  score :: real
  matchType :: MatchType

text \<open>
  The embedder is \<^verbatim>\<open>null\<close> or an object whose \<^verbatim>\<open>embedOne\<close> returns a vector or rejects.
\<close>

record MarketplaceSearch =
  registry :: MarketplaceRegistry
  summaryStore :: "(real, string) LocalVectorStore option"
  embedder :: "(string \<Rightarrow> error + real list) option"

definition keywordSearch :: "MarketplaceSearch \<Rightarrow> string \<Rightarrow> SearchResult list" where
  "keywordSearch eng q =
     (let listings = searchByKeyword (registry eng) q
      in map (\<lambda>(index, l). \<lparr>listing = l, score = 1.0 - real index * 0.05, matchType = Keyword\<rparr>)
             (enumerate 0 listings))"

text \<open>
  The loop of \<^verbatim>\<open>semanticSearch\<close> over the neighbours: \<^verbatim>\<open>continue\<close> when
  \<^verbatim>\<open>!packageId\<close> (absent, or the empty string) and when the registry has no such listing.
\<close>

fun resolve_loop ::
  "MarketplaceRegistry \<Rightarrow> string VectorSearchResult list \<Rightarrow> SearchResult list \<Rightarrow>
   SearchResult list" where
  "resolve_loop reg [] searchResults = searchResults"
| "resolve_loop reg (result # rest) searchResults =
     (case map_of (result_metadata result) ''packageId'' of
        None \<Rightarrow> resolve_loop reg rest searchResults
      | Some packageId \<Rightarrow>
          if packageId = [] then resolve_loop reg rest searchResults
          else
            (case getPackage reg packageId of
               None \<Rightarrow> resolve_loop reg rest searchResults
             | Some l \<Rightarrow>
                 resolve_loop reg rest
                   (searchResults @
                    [\<lparr>listing = l, score = similarity result, matchType = Semantic\<rparr>])))"

definition semanticSearch :: "MarketplaceSearch \<Rightarrow> string \<Rightarrow> nat \<Rightarrow> error + SearchResult list" where
  "semanticSearch eng q limit =
     (case (embedder eng, summaryStore eng) of
        (Some embedOne, Some store) \<Rightarrow>
          (case embedOne q of
             Inl err \<Rightarrow> Inl err
           | Inr queryEmbedding \<Rightarrow>
               (case query store queryEmbedding limit of
                  Inl err \<Rightarrow> Inl err
                | Inr results \<Rightarrow> Inr (resolve_loop (registry eng) results [])))
      | _ \<Rightarrow> Inr [])"

text \<open>The value type of \<^verbatim>\<open>scoreMap\<close> in \<^verbatim>\<open>combineResults\<close>.\<close>

record ScoreEntry =
  entry_listing :: PackageListing
  keywordScore :: real
  semanticScore :: real

text \<open>First loop: every keyword result is written with semantic score 0.\<close>

fun keyword_loop ::
  "SearchResult list \<Rightarrow> (string \<times> ScoreEntry) list \<Rightarrow> (string \<times> ScoreEntry) list" where
  "keyword_loop [] scoreMap = scoreMap"
| "keyword_loop (r # rest) scoreMap =
     keyword_loop rest
       (map_set (listing_id (listing r))
          \<lparr>entry_listing = listing r, keywordScore = score r, semanticScore = 0\<rparr> scoreMap)"

text \<open>
  Body of the second loop: an existing entry has its \<^verbatim>\<open>semanticScore\<close> overwritten in
  place (it keeps its listing, keyword score and position), a new one is written with
  keyword score 0.
\<close>

definition semantic_step ::
  "SearchResult \<Rightarrow> (string \<times> ScoreEntry) list \<Rightarrow> (string \<times> ScoreEntry) list" where
  "semantic_step r scoreMap =
     (case map_get (listing_id (listing r)) scoreMap of
        Some existing \<Rightarrow>
          map_set (listing_id (listing r)) (existing\<lparr>semanticScore := score r\<rparr>) scoreMap
      | None \<Rightarrow>
          map_set (listing_id (listing r))
            \<lparr>entry_listing = listing r, keywordScore = 0, semanticScore = score r\<rparr> scoreMap)"

fun semantic_loop ::
  "SearchResult list \<Rightarrow> (string \<times> ScoreEntry) list \<Rightarrow> (string \<times> ScoreEntry) list" where
  "semantic_loop [] scoreMap = scoreMap"
| "semantic_loop (r # rest) scoreMap = semantic_loop rest (semantic_step r scoreMap)"

definition KEYWORD_WEIGHT :: real where
  "KEYWORD_WEIGHT = 0.4"

definition SEMANTIC_WEIGHT :: real where
  "SEMANTIC_WEIGHT = 0.6"

text \<open>Third loop: one result per entry of \<^verbatim>\<open>scoreMap\<close>, in the order of the map.\<close>

definition fuse :: "ScoreEntry \<Rightarrow> SearchResult" where
  "fuse entry =
     \<lparr>listing = entry_listing entry,
      score = keywordScore entry * KEYWORD_WEIGHT + semanticScore entry * SEMANTIC_WEIGHT,
      matchType =
        (if keywordScore entry > 0 \<and> semanticScore entry > 0 then Combined
         else if keywordScore entry > 0 then Keyword
         else Semantic)\<rparr>"

definition combineResults :: "SearchResult list \<Rightarrow> SearchResult list \<Rightarrow> nat \<Rightarrow> SearchResult list" where
  "combineResults keyword semantic limit =
     (let scoreMap = semantic_loop semantic (keyword_loop keyword []);
          combined = map fuse (map_values scoreMap)
      in take limit (sort_desc score combined))"

definition search :: "MarketplaceSearch \<Rightarrow> string \<Rightarrow> nat \<Rightarrow> error + SearchResult list" where
  "search eng q limit =
     (let keywordResults = keywordSearch eng q;
          semantic =
            (if embedder eng \<noteq> None \<and>
                (case summaryStore eng of None \<Rightarrow> False | Some store \<Rightarrow> size_of store > 0)
             then semanticSearch eng q limit
             else Inr [])
      in case semantic of
           Inl err \<Rightarrow> Inl err
         | Inr semanticResults \<Rightarrow>
             if length semanticResults = 0 then Inr (take limit keywordResults)
             else Inr (combineResults keywordResults semanticResults limit))"

subsection \<open>Notions used to state the properties\<close>

text \<open>
  An index constructed with dimensionality \<open>D\<close>: the result of the constructor, changed
  by any number of calls of the mutating methods (a failed call included).
\<close>

inductive constructed :: "nat \<Rightarrow> ('n, 'v) LocalVectorStore \<Rightarrow> bool" where
  constructed_new: "constructed D (new_LocalVectorStore D)"
| constructed_add: "constructed D s \<Longrightarrow> constructed D (snd (add s i e m))"
| constructed_addBatch: "constructed D s \<Longrightarrow> constructed D (snd (addBatch s items))"
| constructed_delete: "constructed D s \<Longrightarrow> constructed D (snd (delete s i))"
| constructed_clear: "constructed D s \<Longrightarrow> constructed D (clear s)"

text \<open>The entry that \<^verbatim>\<open>addBatch\<close> hands to \<^verbatim>\<open>add\<close> for an item (\<^verbatim>\<open>item.metadata ?? {}\<close>).\<close>

definition entry_of_item :: "('n, 'v) BatchItem \<Rightarrow> ('n, 'v) VectorEntry" where
  "entry_of_item item =
     \<lparr>entry_id = item_id item, embedding = item_embedding item,
      metadata = (case item_metadata item of None \<Rightarrow> [] | Some m \<Rightarrow> m)\<rparr>"

text \<open>The result that \<^verbatim>\<open>query\<close> pushes for an entry whose similarity is defined.\<close>

definition result_of :: "real list \<Rightarrow> (real, 'v) VectorEntry \<Rightarrow> 'v VectorSearchResult" where
  "result_of q e = \<lparr>result_id = entry_id e,
                     similarity = projr (cosineSimilarity q (embedding e)),
                     result_metadata = metadata e\<rparr>"

text \<open>
  The listing a neighbour of the vector index resolves to: none when its metadata has no
  \<^verbatim>\<open>packageId\<close> (or an empty one), or when the registry has no listing with that id.
\<close>

definition neighbour_listing ::
  "MarketplaceRegistry \<Rightarrow> string VectorSearchResult \<Rightarrow> PackageListing option" where
  "neighbour_listing reg r =
     (case map_of (result_metadata r) ''packageId'' of
        None \<Rightarrow> None
      | Some packageId \<Rightarrow> if packageId = [] then None else getPackage reg packageId)"

text \<open>
  The score of a listing in a result list, 0 when the list does not name it. When a list
  names a listing more than once the last result counts, as \<^verbatim>\<open>Map.prototype.set\<close>
  overwrites.
\<close>

abbreviation (input) lid :: "SearchResult \<Rightarrow> string" where
  "lid r \<equiv> listing_id (listing r)"

definition score_in :: "SearchResult list \<Rightarrow> string \<Rightarrow> real" where
  "score_in rs i =
     (case find (\<lambda>r. lid r = i) (rev rs) of None \<Rightarrow> 0 | Some r \<Rightarrow> score r)"

text \<open>
  The index of numbers that an index of reals stands for: every component is finite.
\<close>

definition number_entry :: "(real, 'v) VectorEntry \<Rightarrow> (number, 'v) VectorEntry" where
  "number_entry e =
     \<lparr>entry_id = entry_id e, embedding = map Finite (embedding e), metadata = metadata e\<rparr>"

definition number_store :: "(real, 'v) LocalVectorStore \<Rightarrow> (number, 'v) LocalVectorStore" where
  "number_store s =
     \<lparr>entries = map (\<lambda>p. (fst p, number_entry (snd p))) (entries s), dimensions = dimensions s\<rparr>"

text \<open>
  The values that JSON has: \<^verbatim>\<open>null\<close>, booleans, finite numbers, strings, and the arrays
  and objects of such values. An index of JSON values is one whose entries are such
  values: the components of every embedding are finite and the metadata holds JSON
  values only.
\<close>

fun is_json :: "jsval \<Rightarrow> bool" where
  "is_json JUndefined = False"
| "is_json JNull = True"
| "is_json (JBool b) = True"
| "is_json (JNum n) = (case n of Finite x \<Rightarrow> True | _ \<Rightarrow> False)"
| "is_json (JStr s) = True"
| "is_json (JDate t) = False"
| "is_json (JArr vs) = list_all is_json vs"
| "is_json (JObj ps) = list_all (\<lambda>p. is_json (snd p)) ps"

definition json_index :: "(number, jsval) LocalVectorStore \<Rightarrow> bool" where
  "json_index s = list_all (\<lambda>p. is_json (js_of_entry (snd p))) (entries s)"



subsection \<open>Example data\<close>

text \<open>The index of the test "queries for most similar vectors" of the store's test suite.\<close>

definition example_store :: "(real, jsval) LocalVectorStore" where
  "example_store =
     snd (addBatch (new_LocalVectorStore 3)
       [\<lparr>item_id = ''x'', item_embedding = [1, 0, 0], item_metadata = None\<rparr>,
        \<lparr>item_id = ''y'', item_embedding = [0, 1, 0], item_metadata = None\<rparr>,
        \<lparr>item_id = ''z'', item_embedding = [0, 0, 1], item_metadata = None\<rparr>,
        \<lparr>item_id = ''xy'', item_embedding = [0.7, 0.7, 0],
          item_metadata = Some [(''label'', JStr ''diagonal'')]\<rparr>])"

text \<open>A batch whose second item has four components.\<close>

definition example_batch :: "(real, jsval) BatchItem list" where
  "example_batch =
     [\<lparr>item_id = ''a'', item_embedding = [1, 0, 0], item_metadata = None\<rparr>,
      \<lparr>item_id = ''b'', item_embedding = [1, 2, 3, 4], item_metadata = None\<rparr>,
      \<lparr>item_id = ''c'', item_embedding = [0, 0, 1], item_metadata = None\<rparr>]"

text \<open>Listings, as the search test suite lists them.\<close>

definition example_listing :: "string \<Rightarrow> string \<Rightarrow> PackageListing" where
  "example_listing i n =
     \<lparr>listing_id = i, name = n, description = [], tags = [], priceMon = 1,
      tokenAddress = None, curveAddress = None, creatorAddress = None,
      packagePath = ''/path/'' @ i, fileCount = 1, chunkCount = 1, entityCount = 1,
      timesSold = 0, createdAt = ''2025-01-01 00:00:00''\<rparr>"

text \<open>A registry in which twenty-two packages match every query.\<close>

definition crowded_registry :: MarketplaceRegistry where
  "crowded_registry =
     \<lparr>searchByKeyword = (\<lambda>q. map (\<lambda>n. example_listing (''pkg'' @ replicate n CHR ''i'') ''Guide'') [0..<22]),
      getPackage = (\<lambda>i. None)\<rparr>"

definition crowded_engine :: MarketplaceSearch where
  "crowded_engine = \<lparr>registry = crowded_registry, summaryStore = None, embedder = None\<rparr>"

text \<open>An engine with no embedder over the three listings of the search test suite.\<close>

definition example_registry :: MarketplaceRegistry where
  "example_registry =
     \<lparr>searchByKeyword =
        (\<lambda>q. if q = ''patterns''
              then [example_listing ''ctx_ts01'' ''TypeScript Guide'',
                    example_listing ''ctx_sol02'' ''Solidity Smart Contracts'']
              else []),
      getPackage =
        map_of [(''ctx_ts01'', example_listing ''ctx_ts01'' ''TypeScript Guide''),
                (''ctx_sol02'', example_listing ''ctx_sol02'' ''Solidity Smart Contracts''),
                (''ctx_py03'', example_listing ''ctx_py03'' ''Python Machine Learning'')]\<rparr>"

definition keyword_only_engine :: MarketplaceSearch where
  "keyword_only_engine = \<lparr>registry = example_registry, summaryStore = None, embedder = None\<rparr>"

text \<open>
  An index of three summaries: one of a listed package, one of a package that has been
  removed from the registry, one whose metadata has no package id.
\<close>

definition stale_store :: "(real, string) LocalVectorStore" where
  "stale_store =
     \<lparr>entries =
        [(''ctx_ts01'', \<lparr>entry_id = ''ctx_ts01'', embedding = [1, 0],
                          metadata = [(''packageId'', ''ctx_ts01'')]\<rparr>),
         (''ctx_gone'', \<lparr>entry_id = ''ctx_gone'', embedding = [1, 0],
                          metadata = [(''packageId'', ''ctx_gone'')]\<rparr>),
         (''note'', \<lparr>entry_id = ''note'', embedding = [1, 0], metadata = []\<rparr>)],
      dimensions = 2\<rparr>"

definition stale_engine :: MarketplaceSearch where
  "stale_engine =
     \<lparr>registry = example_registry, summaryStore = Some stale_store,
      embedder = Some (\<lambda>text. Inr [1, 0])\<rparr>"

text \<open>
  An engine whose index holds three summaries; the query embeds to \<open>[1, 0]\<close>, so the
  similarities are \<open>-1\<close>, \<open>1\<close> and \<open>0\<close>.
\<close>

definition fusion_store :: "(real, string) LocalVectorStore" where
  "fusion_store =
     \<lparr>entries =
        [(''ctx_ts01'', \<lparr>entry_id = ''ctx_ts01'', embedding = [- 1, 0],
                          metadata = [(''packageId'', ''ctx_ts01'')]\<rparr>),
         (''ctx_sol02'', \<lparr>entry_id = ''ctx_sol02'', embedding = [1, 0],
                          metadata = [(''packageId'', ''ctx_sol02'')]\<rparr>),
         (''ctx_py03'', \<lparr>entry_id = ''ctx_py03'', embedding = [0, 1],
                          metadata = [(''packageId'', ''ctx_py03'')]\<rparr>)],
      dimensions = 2\<rparr>"

definition fusion_engine :: MarketplaceSearch where
  "fusion_engine =
     \<lparr>registry = example_registry, summaryStore = Some fusion_store,
      embedder = Some (\<lambda>text. Inr [1, 0])\<rparr>"

text \<open>
  An index that \<^verbatim>\<open>add\<close> accepts and JSON cannot hold: two components that are not
  finite, a property whose value is \<^verbatim>\<open>undefined\<close> and a \<^verbatim>\<open>Date\<close>.
\<close>

definition lossy_store :: "(number, jsval) LocalVectorStore" where
  "lossy_store =
     snd (add (new_LocalVectorStore 3) ''a'' [NaN, PosInfinity, Finite 1]
            [(''extra'', JUndefined), (''when'', JDate ''2025-01-01T00:00:00.000Z'')])"





section \<open>Properties\<close>

subsection \<open>Maps and sorting\<close>

lemma map_set_fresh: "k \<notin> fst ` set m \<Longrightarrow> map_set k v m = m @ [(k, v)]"
  by (induction m) auto

lemma map_of_map_set: "map_of (map_set k v m) = (map_of m)(k \<mapsto> v)"
  by (induction m) (auto simp: fun_eq_iff)

lemma keys_map_set: "fst ` set (map_set k v m) = insert k (fst ` set m)"
  by (induction m) auto

lemma distinct_map_set: "distinct (map fst m) \<Longrightarrow> distinct (map fst (map_set k v m))"
  by (induction m) (auto simp: keys_map_set)

lemma list_all_map_set: "list_all P m \<Longrightarrow> P (k, v) \<Longrightarrow> list_all P (map_set k v m)"
  by (induction m) auto

lemma find_snoc:
  "find P (xs @ [x]) = (case find P xs of Some y \<Rightarrow> Some y | None \<Rightarrow> if P x then Some x else None)"
  by (induction xs) auto

lemma map_of_eq_None_keys: "(map_of m k \<noteq> None) = (k \<in> fst ` set m)"
  by (simp add: map_of_eq_None_iff)

lemma sorted_sort_desc: "sorted_wrt (\<lambda>x y. f y \<le> f x) (sort_desc f xs)"
proof -
  have "sorted (map (\<lambda>x. - f x) (sort_key (\<lambda>x. - f x) xs))"
    by (rule sorted_sort_key)
  then show ?thesis
    by (simp add: sort_desc_def sorted_map)
qed

text \<open>The sort is stable: results of equal score keep their order.\<close>

lemma sort_desc_stable: "filter (\<lambda>x. f x = c) (sort_desc f xs) = filter (\<lambda>x. f x = c) xs"
  using sort_key_stable[of "\<lambda>x. - f x" "- c" xs] by (simp add: sort_desc_def)


lemma set_sort_desc: "set (sort_desc f xs) = set xs"
  by (simp add: sort_desc_def)

lemma sorted_wrt_take: "sorted_wrt P xs \<Longrightarrow> sorted_wrt P (take n xs)"
  by (metis append_take_drop_id sorted_wrt_append)


subsection \<open>The invariants hold in every constructed index\<close>

lemma add_dimensions: "dimensions (snd (add s i e m)) = dimensions s"
  by (simp add: add_def)

lemma add_dims_ok: "dims_ok s \<Longrightarrow> dims_ok (snd (add s i e m))"
  by (auto simp: add_def dims_ok_def intro: list_all_map_set)

lemma add_map_ok: "map_ok s \<Longrightarrow> map_ok (snd (add s i e m))"
  by (auto simp: add_def map_ok_def intro: list_all_map_set distinct_map_set)

lemma addBatch_invariants:
  "dimensions (snd (addBatch s items)) = dimensions s \<and>
   (dims_ok s \<longrightarrow> dims_ok (snd (addBatch s items))) \<and>
   (map_ok s \<longrightarrow> map_ok (snd (addBatch s items)))"
proof (induction items arbitrary: s)
  case Nil
  then show ?case by simp
next
  case (Cons it items)
  let ?m = "case item_metadata it of None \<Rightarrow> [] | Some m \<Rightarrow> m"
  obtain r s' where r: "add s (item_id it) (item_embedding it) ?m = (r, s')"
    by (cases "add s (item_id it) (item_embedding it) ?m")
  have s': "dimensions s' = dimensions s" "dims_ok s \<longrightarrow> dims_ok s'" "map_ok s \<longrightarrow> map_ok s'"
    using add_dimensions[of s "item_id it" "item_embedding it" ?m]
      add_dims_ok[of s "item_id it" "item_embedding it" ?m]
      add_map_ok[of s "item_id it" "item_embedding it" ?m] r
    by simp_all
  show ?case
  proof (cases r)
    case (Inl err)
    with r s' show ?thesis by simp
  next
    case (Inr u)
    with r s' Cons.IH[of s'] show ?thesis by simp
  qed
qed

lemma delete_dims_ok: "dims_ok s \<Longrightarrow> dims_ok (snd (delete s i))"
  by (auto simp: delete_def dims_ok_def map_delete_def list_all_iff)

lemma delete_map_ok: "map_ok s \<Longrightarrow> map_ok (snd (delete s i))"
  by (auto simp: delete_def map_ok_def map_delete_def list_all_iff distinct_map_filter)

lemma constructed_invariants:
  "constructed D s \<Longrightarrow> dimensions s = D \<and> dims_ok s \<and> map_ok s"
proof (induction rule: constructed.induct)
  case (constructed_new D)
  then show ?case by (simp add: new_LocalVectorStore_def dims_ok_def map_ok_def)
next
  case (constructed_add D s i e m)
  then show ?case by (simp add: add_dimensions add_dims_ok add_map_ok)
next
  case (constructed_addBatch D s items)
  then show ?case using addBatch_invariants[of s items] by simp
next
  case (constructed_delete D s i)
  then show ?case by (simp add: delete_dims_ok delete_map_ok) (simp add: delete_def)
next
  case (constructed_clear D s)
  then show ?case by (simp add: clear_def dims_ok_def map_ok_def)
qed

lemma example_store_constructed: "constructed 3 example_store"
  unfolding example_store_def by (rule constructed_addBatch[OF constructed_new])

lemma example_store_size: "size_of example_store = 4"
  by (simp add: example_store_def new_LocalVectorStore_def add_def size_of_def)

subsection \<open>query on an index that satisfies the dimension invariant\<close>

lemma cosineSimilarity_total:
  "length a = length b \<Longrightarrow> \<exists>c. cosineSimilarity a b = Inr c"
  by (auto simp: cosineSimilarity_def Let_def split: prod.splits)

lemma score_loop_ok:
  "list_all (\<lambda>e. length (embedding e) = length q) es \<Longrightarrow>
   score_loop q es scored = Inr (scored @ map (result_of q) es)"
proof (induction es arbitrary: scored)
  case Nil
  then show ?case by simp
next
  case (Cons e es)
  then obtain c where "cosineSimilarity q (embedding e) = Inr c"
    using cosineSimilarity_total[of q "embedding e"] by auto
  with Cons show ?case by (simp add: result_of_def)
qed

lemma query_ok:
  assumes "dims_ok s" "length q = dimensions s"
  shows "query s q k =
     Inr (take k (sort_desc similarity (map (result_of q) (map_values (entries s)))))"
proof -
  have "list_all (\<lambda>e. length (embedding e) = length q) (map_values (entries s))"
    using assms by (simp add: dims_ok_def map_values_def list_all_iff)
  from score_loop_ok[OF this, of "[]"] show ?thesis
    using assms by (simp add: query_def)
qed


subsection \<open>C3: the dimension invariant of add and query\<close>

text \<open>
  Claim C3. In an index constructed with dimensionality \<open>D\<close>, \<^verbatim>\<open>add\<close> and \<^verbatim>\<open>query\<close> with
  a vector whose length differs from \<open>D\<close> fail with a dimension mismatch and leave the
  index as it was (the size after a failed \<^verbatim>\<open>add\<close> is the size before). With a vector
  of length exactly \<open>D\<close> both succeed, and \<^verbatim>\<open>add\<close> stores the vector as given, neither
  truncated nor padded.
\<close>

theorem dimension_invariant:
  "constructed D s \<Longrightarrow> length bad \<noteq> D \<Longrightarrow> length good = D \<Longrightarrow>
   add s i bad m = (Inl (DimensionMismatch D (length bad)), s) \<and>
   size_of (snd (add s i bad m)) = size_of s \<and>
   query s bad k = Inl (DimensionMismatch D (length bad)) \<and>
   fst (add s i good m) = Inr () \<and>
   get (snd (add s i good m)) i = Some \<lparr>entry_id = i, embedding = good, metadata = m\<rparr> \<and>
   (\<exists>rs. query s good k = Inr rs)"
proof -
  assume c: "constructed D s" and bad: "length bad \<noteq> D" and good: "length good = D"
  from c have inv: "dimensions s = D" "dims_ok s"
    by (simp_all add: constructed_invariants)
  have 1: "add s i bad m = (Inl (DimensionMismatch D (length bad)), s)"
    using inv bad by (simp add: add_def)
  have 2: "query s bad k = Inl (DimensionMismatch D (length bad))"
    using inv bad by (simp add: query_def)
  have 3: "fst (add s i good m) = Inr ()"
    using inv good by (simp add: add_def)
  have 4: "get (snd (add s i good m)) i = Some \<lparr>entry_id = i, embedding = good, metadata = m\<rparr>"
    using inv good by (simp add: add_def get_def map_get_def map_of_map_set)
  have 5: "\<exists>rs. query s good k = Inr rs"
    using inv good query_ok[of s good k] by simp
  show ?thesis
    using 1 2 3 4 5 by simp
qed

theorem dimension_invariant_witness:
  "constructed 3 example_store \<and> length [1, 2, 3, 4 :: real] \<noteq> 3 \<and> length [1, 0, 0 :: real] = 3 \<and>
   add example_store ''a'' [1, 2, 3, 4] [] = (Inl (DimensionMismatch 3 4), example_store) \<and>
   size_of (snd (add example_store ''a'' [1, 2, 3, 4] [])) = 4 \<and>
   query example_store [1, 2, 3, 4] 5 = Inl (DimensionMismatch 3 4) \<and>
   fst (add example_store ''a'' [1, 0, 0] []) = Inr () \<and>
   (\<exists>rs. query example_store [1, 0, 0] 5 = Inr rs)"
  using dimension_invariant[OF example_store_constructed, of "[1, 2, 3, 4]" "[1, 0, 0]" "''a''" "[]" 5]
    example_store_constructed example_store_size
  by simp

subsection \<open>C4: query returns the top K in descending similarity\<close>



subsection \<open>C10: addBatch stops at the first item it cannot add\<close>

lemma addBatch_all_good:
  "list_all (\<lambda>it. length (item_embedding it) = dimensions s) items \<Longrightarrow>
   addBatch s items =
     (Inr (), s\<lparr>entries := foldl (\<lambda>m it. map_set (item_id it) (entry_of_item it) m) (entries s) items\<rparr>)"
proof (induction items arbitrary: s)
  case Nil
  then show ?case by simp
next
  case (Cons it items)
  let ?s' = "s\<lparr>entries := map_set (item_id it) (entry_of_item it) (entries s)\<rparr>"
  have a: "add s (item_id it) (item_embedding it) (case item_metadata it of None \<Rightarrow> [] | Some m \<Rightarrow> m)
             = (Inr (), ?s')"
    using Cons.prems by (simp add: add_def entry_of_item_def)
  have "list_all (\<lambda>it. length (item_embedding it) = dimensions ?s') items"
    using Cons.prems by simp
  from Cons.IH[OF this] a show ?case by simp
qed

lemma addBatch_append_bad:
  assumes "list_all (\<lambda>it. length (item_embedding it) = dimensions s) good"
    and "length (item_embedding bad) \<noteq> dimensions s"
  shows "addBatch s (good @ bad # rest) =
     (Inl (DimensionMismatch (dimensions s) (length (item_embedding bad))),
      snd (addBatch s good))"
  using assms
proof (induction good arbitrary: s)
  case Nil
  then show ?case by (simp add: add_def)
next
  case (Cons it good)
  let ?s' = "s\<lparr>entries := map_set (item_id it) (entry_of_item it) (entries s)\<rparr>"
  have a: "add s (item_id it) (item_embedding it) (case item_metadata it of None \<Rightarrow> [] | Some m \<Rightarrow> m)
             = (Inr (), ?s')"
    using Cons.prems by (simp add: add_def entry_of_item_def)
  have "list_all (\<lambda>it. length (item_embedding it) = dimensions ?s') good"
       "length (item_embedding bad) \<noteq> dimensions ?s'"
    using Cons.prems by simp_all
  from Cons.IH[OF this] a show ?case by simp
qed

lemma keys_fold_map_set:
  "fst ` set (foldl (\<lambda>m it. map_set (item_id it) (f it) m) m0 items) =
     fst ` set m0 \<union> item_id ` set items"
  by (induction items arbitrary: m0) (auto simp: keys_map_set)

lemma map_of_fold_map_set_other:
  "i \<notin> item_id ` set items \<Longrightarrow>
   map_of (foldl (\<lambda>m it. map_set (item_id it) (f it) m) m0 items) i = map_of m0 i"
  by (induction items arbitrary: m0) (auto simp: map_of_map_set)

text \<open>
  Claim C10. \<^verbatim>\<open>addBatch\<close> adds its items in input order and is not all-or-nothing: when
  the first item whose embedding has the wrong length is at index \<open>k\<close>, the call fails with
  a dimension mismatch for that item, the index is the one reached by adding the items
  before \<open>k\<close> (each of their ids is present), and nothing at index \<open>k\<close> or later is
  applied: an id that is not among the first \<open>k\<close> items is as it was before the call.
\<close>

theorem addBatch_partial:
  "k < length items \<Longrightarrow>
   (\<forall>j<k. length (item_embedding (items ! j)) = dimensions s) \<Longrightarrow>
   length (item_embedding (items ! k)) \<noteq> dimensions s \<Longrightarrow>
   fst (addBatch s items) = Inl (DimensionMismatch (dimensions s) (length (item_embedding (items ! k)))) \<and>
   snd (addBatch s items) = snd (addBatch s (take k items)) \<and>
   fst (addBatch s (take k items)) = Inr () \<and>
   entries (snd (addBatch s items)) =
     foldl (\<lambda>m it. map_set (item_id it) (entry_of_item it) m) (entries s) (take k items) \<and>
   (\<forall>j<k. has (snd (addBatch s items)) (item_id (items ! j))) \<and>
   (\<forall>i. i \<notin> item_id ` set (take k items) \<longrightarrow> get (snd (addBatch s items)) i = get s i)"
proof -
  assume k: "k < length items"
    and good: "\<forall>j<k. length (item_embedding (items ! j)) = dimensions s"
    and bad: "length (item_embedding (items ! k)) \<noteq> dimensions s"
  let ?good = "take k items"
  let ?m = "foldl (\<lambda>m it. map_set (item_id it) (entry_of_item it) m) (entries s) ?good"
  have split: "items = ?good @ (items ! k) # drop (Suc k) items"
    using k by (simp add: id_take_nth_drop)
  have allgood: "list_all (\<lambda>it. length (item_embedding it) = dimensions s) ?good"
    using good k by (auto simp: list_all_length)
  have 1: "addBatch s items =
     (Inl (DimensionMismatch (dimensions s) (length (item_embedding (items ! k)))),
      snd (addBatch s ?good))"
    using addBatch_append_bad[OF allgood bad, of "drop (Suc k) items"] split by simp
  have 2: "addBatch s ?good = (Inr (), s\<lparr>entries := ?m\<rparr>)"
    by (rule addBatch_all_good[OF allgood])
  have ent: "entries (snd (addBatch s items)) = ?m"
    by (simp add: 1 2)
  have 3: "\<forall>j<k. has (snd (addBatch s items)) (item_id (items ! j))"
  proof (intro allI impI)
    fix j assume "j < k"
    then have "items ! j \<in> set ?good"
      using k by (metis in_set_conv_nth length_take min.absorb4 nth_take)
    then have "item_id (items ! j) \<in> fst ` set ?m"
      by (simp add: keys_fold_map_set)
    then have "map_of ?m (item_id (items ! j)) \<noteq> None"
      by (simp only: map_of_eq_None_keys)
    then show "has (snd (addBatch s items)) (item_id (items ! j))"
      unfolding has_def map_has_def ent .
  qed
  have 4: "\<forall>i. i \<notin> item_id ` set ?good \<longrightarrow> get (snd (addBatch s items)) i = get s i"
  proof (intro allI impI)
    fix i assume "i \<notin> item_id ` set ?good"
    then have "map_of ?m i = map_of (entries s) i"
      by (rule map_of_fold_map_set_other)
    then show "get (snd (addBatch s items)) i = get s i"
      unfolding get_def map_get_def ent .
  qed
  show ?thesis using 1 2 ent 3 4 by simp
qed

theorem addBatch_partial_witness:
  "(1::nat) < length example_batch \<and>
   length (item_embedding (example_batch ! 0)) = dimensions (new_LocalVectorStore 3) \<and>
   length (item_embedding (example_batch ! 1)) \<noteq> dimensions (new_LocalVectorStore 3) \<and>
   fst (addBatch (new_LocalVectorStore 3) example_batch) = Inl (DimensionMismatch 3 4) \<and>
   entries (snd (addBatch (new_LocalVectorStore 3) example_batch))
     = [(''a'', \<lparr>entry_id = ''a'', embedding = [1, 0, 0], metadata = []\<rparr>)] \<and>
   has (snd (addBatch (new_LocalVectorStore 3) example_batch)) ''a'' \<and>
   get (snd (addBatch (new_LocalVectorStore 3) example_batch)) ''c'' = None"
proof -
  have h: "(1::nat) < length example_batch"
    "\<forall>j<1. length (item_embedding (example_batch ! j)) = dimensions (new_LocalVectorStore 3)"
    "length (item_embedding (example_batch ! 1)) \<noteq> dimensions (new_LocalVectorStore 3)"
    by (simp_all add: example_batch_def new_LocalVectorStore_def)
  from addBatch_partial[OF h] h show ?thesis
    by (simp add: example_batch_def new_LocalVectorStore_def entry_of_item_def add_def
          get_def map_get_def has_def map_has_def)
qed

subsection \<open>cosineSimilarity in exact arithmetic and on special values\<close>

text \<open>
  The inequality of Cauchy and Schwarz, one step of the loop at a time: what the
  accumulators keep.
\<close>

lemma amgm:
  fixes A B u :: real
  assumes "u\<^sup>2 \<le> A * B" "0 \<le> A" "0 \<le> B"
  shows "2 * u \<le> A + B"
proof -
  have "(A + B)\<^sup>2 = (A - B)\<^sup>2 + 4 * (A * B)"
    by (simp add: power2_eq_square algebra_simps)
  moreover have "0 \<le> (A - B)\<^sup>2" by simp
  moreover have "(2 * u)\<^sup>2 = 4 * u\<^sup>2" by (simp add: power2_eq_square)
  ultimately have "(2 * u)\<^sup>2 \<le> (A + B)\<^sup>2"
    using assms(1) by linarith
  moreover have "0 \<le> A + B" using assms(2,3) by simp
  ultimately show ?thesis by (rule power2_le_imp_le)
qed

lemma cs_step:
  fixes d na nb x y :: real
  assumes "d\<^sup>2 \<le> na * nb" "0 \<le> na" "0 \<le> nb"
  shows "(d + x * y)\<^sup>2 \<le> (na + x * x) * (nb + y * y)"
proof -
  define A where "A = na * (y * y)"
  define B where "B = nb * (x * x)"
  define u where "u = d * (x * y)"
  have A: "0 \<le> A" and B: "0 \<le> B" using assms by (simp_all add: A_def B_def)
  have "u\<^sup>2 = d\<^sup>2 * (x * y)\<^sup>2"
    unfolding u_def by (rule power_mult_distrib)
  also have "\<dots> \<le> (na * nb) * (x * y)\<^sup>2"
    using assms(1) by (rule mult_right_mono) simp
  also have "\<dots> = A * B"
    by (simp add: A_def B_def power2_eq_square)
  finally have "2 * u \<le> A + B"
    using A B by (rule amgm)
  moreover have "(d + x * y)\<^sup>2 = d\<^sup>2 + 2 * u + (x * y)\<^sup>2"
    by (simp add: u_def power2_eq_square algebra_simps)
  moreover have "(na + x * x) * (nb + y * y) = na * nb + A + B + (x * y)\<^sup>2"
    by (simp add: A_def B_def power2_eq_square algebra_simps)
  ultimately show ?thesis using assms(1) by linarith
qed

lemma abs_le_of_square:
  fixes d m :: real
  assumes "d\<^sup>2 \<le> a * b" "0 \<le> a" "a \<le> m" "0 \<le> b" "b \<le> m"
  shows "\<bar>d\<bar> \<le> m"
proof -
  have m: "0 \<le> m" using assms by linarith
  have "a * b \<le> m * m" by (rule mult_mono[OF assms(3,5) m assms(4)])
  with assms(1) have "d\<^sup>2 \<le> m\<^sup>2" by (simp add: power2_eq_square)
  then show ?thesis using m by (simp add: abs_le_square_iff[symmetric])
qed

text \<open>The accumulators of the loop: the norms grow, and Cauchy-Schwarz holds throughout.\<close>

lemma cosine_loop_invariant:
  assumes "cosine_loop xs ys (d, na, nb) = (D, NA, NB)" "d\<^sup>2 \<le> na * nb" "0 \<le> na" "0 \<le> nb"
  shows "D\<^sup>2 \<le> NA * NB \<and> na \<le> NA \<and> nb \<le> NB"
  using assms
proof (induction xs ys "(d, na, nb)" arbitrary: d na nb rule: cosine_loop.induct)
  case (1 x xs y ys d na nb)
  have "D\<^sup>2 \<le> NA * NB \<and> na + x * x \<le> NA \<and> nb + y * y \<le> NB"
  proof (rule "1.hyps")
    show "cosine_loop xs ys (d + x * y, na + x * x, nb + y * y) = (D, NA, NB)"
      using "1.prems"(1) by simp
    show "(d + x * y)\<^sup>2 \<le> (na + x * x) * (nb + y * y)"
      using "1.prems"(2,3,4) by (rule cs_step)
    show "0 \<le> na + x * x" "0 \<le> nb + y * y"
      using "1.prems"(3,4) by simp_all
  qed
  moreover have "0 \<le> x * x" "0 \<le> y * y" by simp_all
  ultimately show ?case by linarith
qed simp_all

lemma cosine_loop_sums:
  "length a = length b \<Longrightarrow>
   cosine_loop a b (d, na, nb) =
     (d + sum_list (map2 (\<lambda>x y. x * y) a b), na + sum_list (map (\<lambda>x. x * x) a),
      nb + sum_list (map (\<lambda>x. x * x) b))"
  by (induction a b arbitrary: d na nb rule: list_induct2) simp_all

text \<open>In exact arithmetic the function is the cosine, lies in \<open>[-1, 1]\<close> and is 0 at a zero norm.\<close>

lemma cosineSimilarity_exact:
  assumes "length a = length b"
  shows "\<exists>c. cosineSimilarity a b = Inr c \<and> \<bar>c\<bar> \<le> 1 \<and>
     c = (if sum_list (map (\<lambda>x. x * x) a) = 0 \<or> sum_list (map (\<lambda>x. x * x) b) = 0 then 0
          else sum_list (map2 (\<lambda>x y. x * y) a b) /
               (sqrt (sum_list (map (\<lambda>x. x * x) a)) * sqrt (sum_list (map (\<lambda>x. x * x) b))))"
proof -
  define dot where "dot = sum_list (map2 (\<lambda>x y. x * y) a b)"
  define A where "A = sum_list (map (\<lambda>x. x * x) a)"
  define B where "B = sum_list (map (\<lambda>x. x * x) b)"
  define c where "c = (if A = 0 \<or> B = 0 then 0 else dot / (sqrt A * sqrt B))"
  have loop: "cosine_loop a b (0, 0, 0) = (dot, A, B)"
    using cosine_loop_sums[OF assms(1), of 0 0 0] by (simp add: dot_def A_def B_def)
  from cosine_loop_invariant[OF loop] have inv: "dot\<^sup>2 \<le> A * B" "0 \<le> A" "0 \<le> B"
    by simp_all
  have 1: "cosineSimilarity a b = Inr c"
    using assms(1) by (simp add: cosineSimilarity_def loop c_def)
  let ?den = "sqrt A * sqrt B"
  have den0: "0 \<le> ?den" using inv by simp
  have "\<bar>dot / ?den\<bar> \<le> 1" if "?den \<noteq> 0"
  proof -
    have "dot\<^sup>2 \<le> ?den\<^sup>2" using inv by (simp add: power_mult_distrib)
    then have "\<bar>dot\<bar> \<le> ?den" using den0 by (simp add: abs_le_square_iff[symmetric])
    moreover have "0 < ?den" using that den0 by linarith
    ultimately have "\<bar>dot\<bar> / ?den \<le> 1" by (simp only: divide_le_eq_1_pos)
    then show ?thesis using den0 by (simp only: abs_divide abs_of_nonneg)
  qed
  then have 2: "\<bar>c\<bar> \<le> 1" by (simp add: c_def)
  show ?thesis
    using 1 2 unfolding c_def dot_def A_def B_def by blast
qed

text \<open>
  An operation on finite numbers whose exact result is below \<open>2^1024\<close> in magnitude returns
  that result, so the loop on special values computes the sums of the exact loop as
  long as no squared norm reaches \<open>2^1024\<close>.
\<close>

lemma overflow_Finite: "M = 2 ^ 1024 \<Longrightarrow> \<bar>x\<bar> < M \<Longrightarrow> overflow x = Finite x"
proof -
  assume M: "M = 2 ^ 1024" and x: "\<bar>x\<bar> < M"
  have "(if M \<le> x then PosInfinity else if x \<le> - M then NegInfinity else Finite x) = Finite x"
    using x by auto
  then show ?thesis unfolding overflow_def M .
qed

lemma cosine_loop_ieee_Finite:
  assumes "cosine_loop xs ys (d, na, nb) = (D, NA, NB)" "d\<^sup>2 \<le> na * nb" "0 \<le> na" "0 \<le> nb"
    and "NA < M" "NB < M" "M = 2 ^ 1024"
  shows "cosine_loop_ieee (map Finite xs) (map Finite ys) (Finite d, Finite na, Finite nb)
         = (Finite D, Finite NA, Finite NB)"
  using assms
proof (induction xs ys "(d, na, nb)" arbitrary: d na nb rule: cosine_loop.induct)
  case (1 x xs y ys d na nb)
  let ?d = "d + x * y" and ?na = "na + x * x" and ?nb = "nb + y * y"
  have l: "cosine_loop xs ys (?d, ?na, ?nb) = (D, NA, NB)" using "1.prems"(1) by simp
  have cs: "?d\<^sup>2 \<le> ?na * ?nb" using "1.prems" by (simp add: cs_step)
  have pos: "0 \<le> ?na" "0 \<le> ?nb" using "1.prems" by simp_all
  from cosine_loop_invariant[OF l cs pos] have le: "?na \<le> NA" "?nb \<le> NB" by simp_all
  define m where "m = max NA NB"
  have m: "m < M" using "1.prems"(5,6) by (simp add: m_def)
  have mm: "NA \<le> m" "NB \<le> m" by (simp_all add: m_def)
  have sq: "0 \<le> x * x" "0 \<le> y * y" by simp_all
  have na: "?na \<le> m" "?nb \<le> m" "x * x \<le> m" "y * y \<le> m"
    using le mm "1.prems"(3,4) sq by linarith+
  have xy: "\<bar>x * y\<bar> \<le> m"
  proof (rule abs_le_of_square[OF _ sq(1) na(3) sq(2) na(4)])
    show "(x * y)\<^sup>2 \<le> x * x * (y * y)" by (simp add: power2_eq_square)
  qed
  have d': "\<bar>?d\<bar> \<le> m"
    by (rule abs_le_of_square[OF cs pos(1) na(1) pos(2) na(2)])
  have lt: "\<bar>x * y\<bar> < M" "\<bar>x * x\<bar> < M" "\<bar>y * y\<bar> < M"
    "\<bar>?d\<bar> < M" "\<bar>?na\<bar> < M" "\<bar>?nb\<bar> < M"
    using xy d' na m pos sq by linarith+
  have o: "overflow (x * y) = Finite (x * y)" "overflow (x * x) = Finite (x * x)"
    "overflow (y * y) = Finite (y * y)" "overflow ?d = Finite ?d"
    "overflow ?na = Finite ?na" "overflow ?nb = Finite ?nb"
    by (rule overflow_Finite[OF "1.prems"(7)], rule lt)+
  have "cosine_loop_ieee (map Finite (x # xs)) (map Finite (y # ys)) (Finite d, Finite na, Finite nb)
      = cosine_loop_ieee (map Finite xs) (map Finite ys) (Finite ?d, Finite ?na, Finite ?nb)"
    by (simp add: o)
  also have "\<dots> = (Finite D, Finite NA, Finite NB)"
    using l cs pos "1.prems"(5,6,7) by (rule "1.hyps")
  finally show ?case .
qed simp_all

text \<open>
  Where no squared norm reaches \<open>2^1024\<close>, the embedding with special values returns the
  finite number that the exact embedding returns.
\<close>

lemma cosineSimilarity_ieee_exact:
  assumes "cosine_loop a b (0, 0, 0) = (D, NA, NB)" "NA < 2 ^ 1024" "NB < 2 ^ 1024"
  shows "cosineSimilarity_ieee (map Finite a) (map Finite b) =
     (case cosineSimilarity a b of Inl err \<Rightarrow> Inl err | Inr c \<Rightarrow> Inr (Finite c))"
proof (cases "length a = length b")
  case False
  then show ?thesis by (simp add: cosineSimilarity_ieee_def cosineSimilarity_def)
next
  case True
  have inv: "D\<^sup>2 \<le> NA * NB" "0 \<le> NA" "0 \<le> NB"
    using cosine_loop_invariant[OF assms(1)] by simp_all
  define M :: real where "M = 2 ^ 1024"
  have M: "NA < M" "NB < M" "1 < M"
    using assms(2,3) by (simp_all add: M_def)
  have loop: "cosine_loop_ieee (map Finite a) (map Finite b) (Finite 0, Finite 0, Finite 0)
         = (Finite D, Finite NA, Finite NB)"
    using cosine_loop_ieee_Finite[OF assms(1) _ _ _ M(1,2) M_def] by simp
  define m where "m = max NA NB"
  have m: "m < M" "NA \<le> m" "NB \<le> m" using M(1,2) by (simp_all add: m_def)
  let ?den = "sqrt NA * sqrt NB"
  have den0: "0 \<le> ?den" using inv by simp
  have "\<bar>?den\<bar> \<le> m"
  proof (rule abs_le_of_square[OF _ inv(2) m(2) inv(3) m(3)])
    show "?den\<^sup>2 \<le> NA * NB" using inv by (simp add: power_mult_distrib)
  qed
  then have oden: "overflow ?den = Finite ?den"
  proof -
    assume "\<bar>?den\<bar> \<le> m"
    with m(1) have "\<bar>?den\<bar> < M" by linarith
    then show ?thesis by (rule overflow_Finite[OF M_def])
  qed
  have quot: "overflow (D / ?den) = Finite (D / ?den)" if "?den \<noteq> 0"
  proof (rule overflow_Finite[OF M_def])
    have "\<bar>D\<bar> \<le> ?den"
    proof -
      have "D\<^sup>2 \<le> ?den\<^sup>2" using inv by (simp add: power_mult_distrib)
      then show ?thesis using den0 by (simp add: abs_le_square_iff[symmetric])
    qed
    moreover have "0 < ?den" using that den0 by linarith
    ultimately have "\<bar>D\<bar> / ?den \<le> 1" by (simp only: divide_le_eq_1_pos)
    then have "\<bar>D / ?den\<bar> \<le> 1" using den0 by (simp only: abs_divide abs_of_nonneg)
    then show "\<bar>D / ?den\<bar> < M" using M(3) by linarith
  qed
  show ?thesis
    using True inv quot
    by (simp add: cosineSimilarity_ieee_def cosineSimilarity_def loop assms(1) oden Let_def)
qed

lemma cosineSimilarity_ieee_finite:
  assumes "sum_list (map (\<lambda>x. x * x) a) < 2 ^ 1024" "sum_list (map (\<lambda>x. x * x) b) < 2 ^ 1024"
  shows "cosineSimilarity_ieee (map Finite a) (map Finite b) =
     (case cosineSimilarity a b of Inl err \<Rightarrow> Inl err | Inr c \<Rightarrow> Inr (Finite c))"
proof (cases "length a = length b")
  case False
  then show ?thesis by (simp add: cosineSimilarity_ieee_def cosineSimilarity_def)
next
  case True
  have loop: "cosine_loop a b (0, 0, 0) =
      (sum_list (map2 (\<lambda>x y. x * y) a b), sum_list (map (\<lambda>x. x * x) a), sum_list (map (\<lambda>x. x * x) b))"
    using cosine_loop_sums[OF True, of 0 0 0] by simp
  show ?thesis
    by (rule cosineSimilarity_ieee_exact[OF loop assms])
qed

subsection \<open>C5: cosineSimilarity with a zero norm\<close>

text \<open>
  Claim C5. The claim is that \<^verbatim>\<open>cosineSimilarity\<close> is the quotient of the dot product by
  the product of the norms, lies in \<open>[-1, 1]\<close>, and is exactly 0, never \<^verbatim>\<open>NaN\<close>, whenever a
  norm is zero. In exact arithmetic the function is that (\<open>cosineSimilarity_exact\<close>), and
  on special values it returns the same number while no squared norm overflows
  (\<open>cosineSimilarity_ieee_finite\<close>). The code diverges from the claim on the zero vector
  against a vector whose squared norm overflows: for \<^verbatim>\<open>[0]\<close> and \<^verbatim>\<open>[1e200]\<close> the accumulator
  \<^verbatim>\<open>normB\<close> is \<^verbatim>\<open>Infinity\<close>, the denominator \<^verbatim>\<open>0 * Infinity\<close> is \<^verbatim>\<open>NaN\<close>, the guard
  \<^verbatim>\<open>denominator === 0\<close> does not hold, and the result is \<^verbatim>\<open>0 / NaN\<close>, which is \<^verbatim>\<open>NaN\<close>,
  where the exact value is 0.
\<close>

theorem cosineSimilarity_zero_norm_NaN:
  "cosineSimilarity_ieee [Finite 0] [Finite (10 ^ 200)] = Inr NaN \<and>
   cosineSimilarity [0] [10 ^ 200] = Inr 0"
  by (simp add: cosineSimilarity_ieee_def cosineSimilarity_def overflow_def infinity_of_sign_def)

subsection \<open>JSON.stringify and the loop of load\<close>

text \<open>\<^verbatim>\<open>JSON.stringify\<close> writes a JSON value as it is.\<close>

lemma json_of_is_json:
  "is_json v \<Longrightarrow> json_of v = v"
  "list_all (\<lambda>p. is_json (snd p)) ps \<Longrightarrow> json_of_properties ps = ps"
proof (induction v and ps rule: json_of_json_of_properties.induct)
  case (4 n)
  then show ?case by (cases n) auto
next
  case (7 vs)
  then show ?case by (auto simp: list_all_iff intro: map_idI)
next
  case (10 p ps)
  then show ?case by (cases p) auto
qed auto

text \<open>The \<^verbatim>\<open>Map\<close> of the loaded object: \<^verbatim>\<open>set\<close> with a key that is not there appends.\<close>

lemma same_value_zero_JStr [simp]:
  "same_value_zero (JStr a) k = (k = JStr a)"
  "same_value_zero k (JStr a) = (k = JStr a)"
  by (cases k; auto)+

lemma js_map_set_fresh:
  "list_all (\<lambda>p. \<not> same_value_zero (fst p) k) m \<Longrightarrow> js_map_set k v m = m @ [(k, v)]"
  by (induction m) auto

lemma entry_key_js_of_entry [simp]: "entry_key (js_of_entry e) = Inr (JStr (entry_id e))"
  by (simp add: entry_key_def js_of_entry_def)

lemma entry_key_json_of_entry [simp]:
  "entry_key (json_of (js_of_entry e)) = Inr (JStr (entry_id e))"
  by (simp add: entry_key_def js_of_entry_def)

text \<open>Entries with distinct string ids: the loop appends them in order, whatever they hold.\<close>

lemma load_loop_distinct_ids:
  "distinct (map fst kes) \<Longrightarrow>
   list_all (\<lambda>ke. entry_key (snd ke) = Inr (JStr (fst ke))) kes \<Longrightarrow>
   list_all (\<lambda>ke. JStr (fst ke) \<notin> fst ` set (loaded_entries st)) kes \<Longrightarrow>
   list_all (\<lambda>p. \<exists>a. fst p = JStr a) (loaded_entries st) \<Longrightarrow>
   load_loop st (map snd kes) =
     Inr (st\<lparr>loaded_entries := loaded_entries st @ map (\<lambda>ke. (JStr (fst ke), snd ke)) kes\<rparr>)"
proof (induction kes arbitrary: st)
  case Nil
  then show ?case by simp
next
  case (Cons ke kes)
  let ?m = "loaded_entries st"
  have key: "entry_key (snd ke) = Inr (JStr (fst ke))"
    using Cons.prems(2) by simp
  have fresh: "list_all (\<lambda>p. \<not> same_value_zero (fst p) (JStr (fst ke))) ?m"
    using Cons.prems(3,4) by (auto simp: list_all_iff image_iff)
  let ?st = "st\<lparr>loaded_entries := ?m @ [(JStr (fst ke), snd ke)]\<rparr>"
  have step: "load_loop st (map snd (ke # kes)) = load_loop ?st (map snd kes)"
    by (simp add: key js_map_set_fresh[OF fresh])
  have "distinct (map fst kes)"
    "list_all (\<lambda>ke. entry_key (snd ke) = Inr (JStr (fst ke))) kes"
    "list_all (\<lambda>ke. JStr (fst ke) \<notin> fst ` set (loaded_entries ?st)) kes"
    "list_all (\<lambda>p. \<exists>a. fst p = JStr a) (loaded_entries ?st)"
    using Cons.prems by (auto simp: list_all_iff image_iff)
  from Cons.IH[OF this] show ?case
    unfolding step by simp
qed

lemma load_distinct_ids:
  assumes "fs p = Some (Json (JObj [(''entries'', JArr (map snd kes)), (''dimensions'', JNum (Finite d))]))"
    and "distinct (map fst kes)"
    and "list_all (\<lambda>ke. entry_key (snd ke) = Inr (JStr (fst ke))) kes"
  shows "load fs p =
     Inr \<lparr>loaded_entries = map (\<lambda>ke. (JStr (fst ke), snd ke)) kes,
          loaded_dimensions = JNum (Finite d)\<rparr>"
  using assms(1)
    load_loop_distinct_ids[OF assms(2,3), of "\<lparr>loaded_entries = [], loaded_dimensions = JNum (Finite d)\<rparr>"]
  by (simp add: load_def load_dimensions_def load_entries_def list_all_iff)


text \<open>What \<^verbatim>\<open>save\<close> then \<^verbatim>\<open>load\<close> gives for any index: every entry as \<^verbatim>\<open>JSON.stringify\<close> wrote it.\<close>

lemma load_save:
  assumes "map_ok s"
  shows "load (save s p fs) p =
     Inr \<lparr>loaded_entries = map (\<lambda>q. (JStr (fst q), json_of (js_of_entry (snd q)))) (entries s),
          loaded_dimensions = JNum (Finite (real (dimensions s)))\<rparr>"
proof -
  let ?kes = "map (\<lambda>q. (fst q, json_of (js_of_entry (snd q)))) (entries s)"
  have ids: "list_all (\<lambda>q. entry_id (snd q) = fst q) (entries s)"
    using assms by (simp add: map_ok_def)
  have "load (save s p fs) p =
     Inr \<lparr>loaded_entries = map (\<lambda>ke. (JStr (fst ke), snd ke)) ?kes,
          loaded_dimensions = JNum (Finite (real (dimensions s)))\<rparr>"
  proof (rule load_distinct_ids)
    show "save s p fs p = Some (Json (JObj [(''entries'', JArr (map snd ?kes)),
            (''dimensions'', JNum (Finite (real (dimensions s))))]))"
      by (simp add: save_def js_of_data_def map_values_def comp_def)
    show "distinct (map fst ?kes)"
      using assms by (simp add: map_ok_def comp_def)
    show "list_all (\<lambda>ke. entry_key (snd ke) = Inr (JStr (fst ke))) ?kes"
      using ids by (simp add: list_all_iff)
  qed
  then show ?thesis by (simp add: comp_def)
qed

lemma load_save_json:
  assumes "map_ok s" "json_index s"
  shows "load (save s p fs) p = Inr (js_of_store s)"
proof -
  have "map (\<lambda>q. (JStr (fst q), json_of (js_of_entry (snd q)))) (entries s)
      = map (\<lambda>q. (JStr (fst q), js_of_entry (snd q))) (entries s)"
    using assms(2) by (auto simp: json_index_def list_all_iff json_of_is_json(1))
  then show ?thesis
    using load_save[OF assms(1), of p fs] by (simp add: js_of_store_def)
qed

text \<open>An index is determined by the object that stands for it.\<close>

lemma js_of_entry_inj: "js_of_entry e = js_of_entry e' \<Longrightarrow> e = e'"
proof -
  assume a: "js_of_entry e = js_of_entry e'"
  have "inj JNum" by (simp add: inj_def)
  then have "map JNum (embedding e) = map JNum (embedding e') \<Longrightarrow> embedding e = embedding e'"
    by (simp add: inj_map_eq_map)
  with a show ?thesis
    by (simp add: js_of_entry_def VectorEntry.equality)
qed

lemma js_of_store_inj: "js_of_store s' = js_of_store s \<Longrightarrow> s' = s"
proof -
  assume a: "js_of_store s' = js_of_store s"
  have "inj (\<lambda>p :: string \<times> (number, jsval) VectorEntry. (JStr (fst p), js_of_entry (snd p)))"
    by (auto simp: inj_def dest: js_of_entry_inj)
  then have "map (\<lambda>p. (JStr (fst p), js_of_entry (snd p))) (entries s')
           = map (\<lambda>p. (JStr (fst p), js_of_entry (snd p))) (entries s) \<Longrightarrow> entries s' = entries s"
    by (simp add: inj_map_eq_map)
  with a show ?thesis
    by (simp add: js_of_store_def LocalVectorStore.equality)
qed

lemma number_entry_inj: "number_entry e = number_entry e' \<Longrightarrow> e = e'"
proof -
  assume a: "number_entry e = number_entry e'"
  have "inj Finite" by (simp add: inj_def)
  then have "map Finite (embedding e) = map Finite (embedding e') \<Longrightarrow> embedding e = embedding e'"
    by (simp add: inj_map_eq_map)
  with a show ?thesis
    by (simp add: number_entry_def VectorEntry.equality)
qed

lemma number_store_inj: "number_store t' = number_store t \<Longrightarrow> t' = t"
proof -
  assume a: "number_store t' = number_store t"
  have "inj (\<lambda>p :: string \<times> (real, 'a) VectorEntry. (fst p, number_entry (snd p)))"
    by (auto simp: inj_def dest: number_entry_inj)
  then have "map (\<lambda>p. (fst p, number_entry (snd p))) (entries t')
           = map (\<lambda>p. (fst p, number_entry (snd p))) (entries t) \<Longrightarrow> entries t' = entries t"
    by (simp add: inj_map_eq_map)
  with a show ?thesis
    by (simp add: number_store_def LocalVectorStore.equality)
qed

lemma number_store_example:
  "number_store example_store =
     \<lparr>entries =
        [(''x'', \<lparr>entry_id = ''x'', embedding = [Finite 1, Finite 0, Finite 0], metadata = []\<rparr>),
         (''y'', \<lparr>entry_id = ''y'', embedding = [Finite 0, Finite 1, Finite 0], metadata = []\<rparr>),
         (''z'', \<lparr>entry_id = ''z'', embedding = [Finite 0, Finite 0, Finite 1], metadata = []\<rparr>),
         (''xy'', \<lparr>entry_id = ''xy'', embedding = [Finite 0.7, Finite 0.7, Finite 0],
                  metadata = [(''label'', JStr ''diagonal'')]\<rparr>)],
      dimensions = 3\<rparr>"
  by (simp add: number_store_def number_entry_def example_store_def new_LocalVectorStore_def add_def)

subsection \<open>C6: save followed by load\<close>

text \<open>
  Claim C6, as amended. For every index of JSON values (finite components, metadata of
  JSON values only), saving it to a path and loading that path returns the object that
  stands for that index and for no other: the same size, the same entries (id, embedding,
  metadata, in the same order) and the same dimensions, so every query has the same
  answer on both. The hypothesis \<open>map_ok\<close> is the invariant of the representation, which
  holds in every constructed index (\<open>constructed_invariants\<close>). For an index that is not of
  JSON values the loaded entries are the saved ones as \<^verbatim>\<open>JSON.stringify\<close> writes them
  (\<open>load_save\<close>), and they differ from the saved ones, as the counterexample shows.
\<close>

theorem save_load_roundtrip:
  "map_ok s \<Longrightarrow> json_index s \<Longrightarrow>
   load (save s p fs) p = Inr (js_of_store s) \<and>
   (load (save s p fs) p = Inr (js_of_store s') \<longrightarrow>
      s' = s \<and> size_of s' = size_of s \<and> entries s' = entries s \<and> dimensions s' = dimensions s) \<and>
   (s = number_store t \<and> load (save s p fs) p = Inr (js_of_store (number_store t')) \<longrightarrow>
      t' = t \<and> query t' q k = query t q k)"
proof -
  assume "map_ok s" "json_index s"
  then have l: "load (save s p fs) p = Inr (js_of_store s)"
    by (rule load_save_json)
  have a: "s' = s" if "load (save s p fs) p = Inr (js_of_store s')"
    using that l by (simp add: js_of_store_inj)
  have b: "t' = t"
    if "s = number_store t" "load (save s p fs) p = Inr (js_of_store (number_store t'))"
  proof -
    from that(2) l have "js_of_store (number_store t') = js_of_store s" by simp
    then have "number_store t' = number_store t"
      unfolding that(1) by (rule js_of_store_inj)
    then show ?thesis by (rule number_store_inj)
  qed
  from l a b show ?thesis by blast
qed

theorem save_load_roundtrip_witness:
  "map_ok (number_store example_store) \<and> json_index (number_store example_store) \<and>
   load (save (number_store example_store) ''index.json'' Map.empty) ''index.json''
     = Inr (js_of_store (number_store example_store))"
proof -
  have m: "map_ok (number_store example_store)"
    by (simp add: number_store_example map_ok_def)
  have j: "json_index (number_store example_store)"
    by (simp add: number_store_example json_index_def js_of_entry_def)
  from save_load_roundtrip[OF m j, of "''index.json''" Map.empty "number_store example_store"
      example_store example_store "[1, 0, 0]" 1] m j
  show ?thesis by simp
qed

text \<open>
  An index that \<^verbatim>\<open>add\<close> builds and that does not come back: the components \<^verbatim>\<open>NaN\<close> and
  \<^verbatim>\<open>Infinity\<close> are \<^verbatim>\<open>null\<close> in the loaded entry, the property \<^verbatim>\<open>extra\<close> is gone and the
  \<^verbatim>\<open>Date\<close> is a string.
\<close>

theorem save_load_lossy_counterexample:
  "fst (add (new_LocalVectorStore 3) ''a'' [NaN, PosInfinity, Finite 1]
          [(''extra'', JUndefined), (''when'', JDate ''2025-01-01T00:00:00.000Z'')]) = Inr () \<and>
   map_ok lossy_store \<and>
   entries lossy_store =
     [(''a'', \<lparr>entry_id = ''a'', embedding = [NaN, PosInfinity, Finite 1],
              metadata = [(''extra'', JUndefined), (''when'', JDate ''2025-01-01T00:00:00.000Z'')]\<rparr>)] \<and>
   load (save lossy_store ''index.json'' Map.empty) ''index.json'' =
     Inr \<lparr>loaded_entries =
            [(JStr ''a'',
              JObj [(''id'', JStr ''a''),
                    (''embedding'', JArr [JNull, JNull, JNum (Finite 1)]),
                    (''metadata'', JObj [(''when'', JStr ''2025-01-01T00:00:00.000Z'')])])],
          loaded_dimensions = JNum (Finite 3)\<rparr> \<and>
   load (save lossy_store ''index.json'' Map.empty) ''index.json'' \<noteq> Inr (js_of_store lossy_store)"
  by (simp add: lossy_store_def new_LocalVectorStore_def add_def map_ok_def save_def load_def
      js_of_data_def js_of_entry_def js_of_store_def map_values_def load_dimensions_def
      load_entries_def entry_key_def)

subsection \<open>C9: load does not validate what it reads\<close>























subsection \<open>C2: the scores of keywordSearch\<close>

lemma keywordSearch_length:
  "length (keywordSearch eng q) = length (searchByKeyword (registry eng) q)"
  by (simp add: keywordSearch_def)

lemma keywordSearch_nth:
  "i < length (searchByKeyword (registry eng) q) \<Longrightarrow>
   keywordSearch eng q ! i =
     \<lparr>listing = searchByKeyword (registry eng) q ! i, score = 1 - real i * 0.05, matchType = Keyword\<rparr>"
  by (simp add: keywordSearch_def nth_enumerate_eq)

text \<open>
  Claim C2, as amended. The result of \<^verbatim>\<open>keywordSearch\<close> has one entry per listing of the
  registry's answer, in the same order and tagged keyword; the result at zero-based rank
  \<open>i\<close> has score \<open>1.0 - 0.05 * i\<close>, so the scores strictly decrease with the rank and
  never exceed 1. A score is positive exactly at the ranks below 20: the range \<open>(0, 1]\<close>
  holds for the first twenty results only.
\<close>

theorem keyword_scores:
  "length (keywordSearch eng q) = length (searchByKeyword (registry eng) q) \<and>
   (\<forall>i<length (keywordSearch eng q).
      listing (keywordSearch eng q ! i) = searchByKeyword (registry eng) q ! i \<and>
      matchType (keywordSearch eng q ! i) = Keyword \<and>
      score (keywordSearch eng q ! i) = 1.0 - 0.05 * real i \<and>
      score (keywordSearch eng q ! i) \<le> 1 \<and>
      (0 < score (keywordSearch eng q ! i)) = (i < 20) \<and>
      (\<forall>j<i. score (keywordSearch eng q ! i) < score (keywordSearch eng q ! j)))"
proof (intro conjI allI impI)
  show "length (keywordSearch eng q) = length (searchByKeyword (registry eng) q)"
    by (rule keywordSearch_length)
next
  fix i assume i: "i < length (keywordSearch eng q)"
  then have i': "i < length (searchByKeyword (registry eng) q)"
    by (simp add: keywordSearch_length)
  note nth = keywordSearch_nth[OF i']
  show "listing (keywordSearch eng q ! i) = searchByKeyword (registry eng) q ! i"
    by (simp add: nth)
  show "matchType (keywordSearch eng q ! i) = Keyword"
    by (simp add: nth)
  show "score (keywordSearch eng q ! i) = 1.0 - 0.05 * real i"
    by (simp add: nth)
  show "score (keywordSearch eng q ! i) \<le> 1"
    by (simp add: nth)
  show "(0 < score (keywordSearch eng q ! i)) = (i < 20)"
    by (simp add: nth)
  fix j assume j: "j < i"
  then have "j < length (searchByKeyword (registry eng) q)"
    using i' by simp
  from keywordSearch_nth[OF this] j
  show "score (keywordSearch eng q ! i) < score (keywordSearch eng q ! j)"
    by (simp add: nth)
qed

theorem keyword_scores_witness:
  "length (keywordSearch crowded_engine ''guide'') = 22 \<and>
   score (keywordSearch crowded_engine ''guide'' ! 0) = 1 \<and>
   score (keywordSearch crowded_engine ''guide'' ! 1) = 0.95 \<and>
   score (keywordSearch crowded_engine ''guide'' ! 1) < score (keywordSearch crowded_engine ''guide'' ! 0) \<and>
   0 < score (keywordSearch crowded_engine ''guide'' ! 19)"
proof -
  have len: "length (searchByKeyword (registry crowded_engine) ''guide'') = 22"
    by (simp add: crowded_engine_def crowded_registry_def)
  from keyword_scores[of crowded_engine "''guide''"] len
  have all: "\<forall>i<22.
      score (keywordSearch crowded_engine ''guide'' ! i) = 1.0 - 0.05 * real i \<and>
      (0 < score (keywordSearch crowded_engine ''guide'' ! i)) = (i < 20) \<and>
      (\<forall>j<i. score (keywordSearch crowded_engine ''guide'' ! i) < score (keywordSearch crowded_engine ''guide'' ! j))"
    and l: "length (keywordSearch crowded_engine ''guide'') = 22"
    by simp_all
  from all have "score (keywordSearch crowded_engine ''guide'' ! 0) = 1.0 - 0.05 * real 0"
    "score (keywordSearch crowded_engine ''guide'' ! 1) = 1.0 - 0.05 * real 1"
    "0 < score (keywordSearch crowded_engine ''guide'' ! 19)"
    "score (keywordSearch crowded_engine ''guide'' ! 1) < score (keywordSearch crowded_engine ''guide'' ! 0)"
    by (simp_all del: of_nat_0 of_nat_1)
  with l show ?thesis by simp
qed

text \<open>
  The claim as stated fails: when twenty-two packages match, the result at rank 21 has
  the score \<open>-0.05\<close>, which is not in \<open>(0, 1]\<close>.
\<close>

theorem keyword_score_range_counterexample:
  "21 < length (keywordSearch crowded_engine ''guide'') \<and>
   score (keywordSearch crowded_engine ''guide'' ! 21) = - 0.05 \<and>
   \<not> (0 < score (keywordSearch crowded_engine ''guide'' ! 21))"
proof -
  have len: "21 < length (searchByKeyword (registry crowded_engine) ''guide'')"
    by (simp add: crowded_engine_def crowded_registry_def)
  from keywordSearch_nth[OF len] len show ?thesis
    by (simp add: keywordSearch_length)
qed

subsection \<open>C7: search without semantic results\<close>

text \<open>
  Claim C7. When no embedder is configured, or the vector index is absent or empty, or
  the semantic search returns no result, \<^verbatim>\<open>search\<close> returns the result of
  \<^verbatim>\<open>keywordSearch\<close> truncated to its first \<open>limit\<close> elements, in the same order, and
  it does not fail.
\<close>

theorem graceful_degradation:
  "embedder eng = None \<or> summaryStore eng = None \<or>
   (\<exists>store. summaryStore eng = Some store \<and> size_of store = 0) \<or>
   semanticSearch eng q limit = Inr [] \<Longrightarrow>
   search eng q limit = Inr (take limit (keywordSearch eng q))"
  by (auto simp: search_def Let_def split: option.splits)

theorem graceful_degradation_witness:
  "embedder keyword_only_engine = None \<and>
   search keyword_only_engine ''patterns'' 1 =
     Inr [\<lparr>listing = example_listing ''ctx_ts01'' ''TypeScript Guide'', score = 1, matchType = Keyword\<rparr>]"
proof -
  have h: "embedder keyword_only_engine = None"
    by (simp add: keyword_only_engine_def)
  then have "embedder keyword_only_engine = None \<or> summaryStore keyword_only_engine = None \<or>
   (\<exists>store. summaryStore keyword_only_engine = Some store \<and> size_of store = 0) \<or>
   semanticSearch keyword_only_engine ''patterns'' 1 = Inr []"
    by simp
  from graceful_degradation[OF this] h show ?thesis
    by (simp add: keywordSearch_def keyword_only_engine_def example_registry_def enumerate_simps)
qed

subsection \<open>C8: semanticSearch drops the neighbours it cannot resolve\<close>

lemma resolve_loop_eq:
  "resolve_loop reg rs acc =
     acc @ map (\<lambda>r. \<lparr>listing = the (neighbour_listing reg r), score = similarity r,
                       matchType = Semantic\<rparr>)
               (filter (\<lambda>r. neighbour_listing reg r \<noteq> None) rs)"
  by (induction rs arbitrary: acc) (auto simp: neighbour_listing_def split: option.splits)

lemma query_sorted:
  "query s q k = Inr rs \<Longrightarrow> sorted_wrt (\<lambda>a b. similarity b \<le> similarity a) rs"
  by (auto simp: query_def split: if_splits sum.splits
           intro!: sorted_wrt_take sorted_sort_desc)

lemma sorted_wrt_filter: "sorted_wrt P xs \<Longrightarrow> sorted_wrt P (filter Q xs)"
  by (induction xs) auto

text \<open>
  An error of \<^verbatim>\<open>semanticSearch\<close> comes from the embedder or from the index, never from
  a neighbour that does not resolve.
\<close>

lemma semanticSearch_fails_iff:
  "embedder eng = Some embedOne \<Longrightarrow> summaryStore eng = Some store \<Longrightarrow>
   (\<exists>err. semanticSearch eng q limit = Inl err) \<longleftrightarrow>
     (\<exists>err. embedOne q = Inl err) \<or>
     (\<exists>v err. embedOne q = Inr v \<and> query store v limit = Inl err)"
  by (auto simp: semanticSearch_def split: sum.splits)

text \<open>
  Claim C8. With an embedder and an index configured, once the query is embedded and the
  index has answered, \<^verbatim>\<open>semanticSearch\<close> returns without error exactly the neighbours
  that resolve to a listing, in the order of the index (descending similarity), each
  with the similarity of the index as its score and tagged semantic. A neighbour whose
  metadata has no package id, or whose package id the registry does not know, is left
  out.
\<close>

theorem semantic_drops_unresolved:
  "embedder eng = Some embedOne \<Longrightarrow> summaryStore eng = Some store \<Longrightarrow>
   embedOne q = Inr v \<Longrightarrow> query store v limit = Inr neighbours \<Longrightarrow>
   semanticSearch eng q limit =
     Inr (map (\<lambda>r. \<lparr>listing = the (neighbour_listing (registry eng) r), score = similarity r,
                      matchType = Semantic\<rparr>)
              (filter (\<lambda>r. neighbour_listing (registry eng) r \<noteq> None) neighbours)) \<and>
   sorted_wrt (\<lambda>a b. similarity b \<le> similarity a)
     (filter (\<lambda>r. neighbour_listing (registry eng) r \<noteq> None) neighbours)"
proof -
  assume h: "embedder eng = Some embedOne" "summaryStore eng = Some store"
    "embedOne q = Inr v" "query store v limit = Inr neighbours"
  have "semanticSearch eng q limit = Inr (resolve_loop (registry eng) neighbours [])"
    using h by (simp add: semanticSearch_def)
  moreover have "sorted_wrt (\<lambda>a b. similarity b \<le> similarity a)
     (filter (\<lambda>r. neighbour_listing (registry eng) r \<noteq> None) neighbours)"
    using query_sorted[OF h(4)] by (rule sorted_wrt_filter)
  ultimately show ?thesis
    by (simp add: resolve_loop_eq)
qed

lemma cosine_unit: "cosineSimilarity [1, 0] [1, 0] = Inr 1"
  by (simp add: cosineSimilarity_def)

lemma stale_query:
  "query stale_store [1, 0] 10 =
     Inr [\<lparr>result_id = ''ctx_ts01'', similarity = 1, result_metadata = [(''packageId'', ''ctx_ts01'')]\<rparr>,
          \<lparr>result_id = ''ctx_gone'', similarity = 1, result_metadata = [(''packageId'', ''ctx_gone'')]\<rparr>,
          \<lparr>result_id = ''note'', similarity = 1, result_metadata = []\<rparr>]"
  by (simp add: query_def stale_store_def map_values_def cosine_unit sort_desc_def)

theorem semantic_drops_unresolved_witness:
  "embedder stale_engine = Some (\<lambda>text. Inr [1, 0]) \<and> summaryStore stale_engine = Some stale_store \<and>
   semanticSearch stale_engine ''typescript'' 10 =
     Inr [\<lparr>listing = example_listing ''ctx_ts01'' ''TypeScript Guide'', score = 1, matchType = Semantic\<rparr>]"
proof -
  have h: "embedder stale_engine = Some (\<lambda>text. Inr [1, 0])" "summaryStore stale_engine = Some stale_store"
    "(\<lambda>text. Inr [1, 0 :: real] :: error + real list) ''typescript'' = Inr [1, 0]"
    by (simp_all add: stale_engine_def)
  from semantic_drops_unresolved[OF h stale_query] h(1,2) show ?thesis
    by (simp add: neighbour_listing_def stale_engine_def example_registry_def)
qed

subsection \<open>C1: the fusion of keyword and semantic results\<close>

lemma find_unique:
  "distinct (map f xs) \<Longrightarrow> x \<in> set xs \<Longrightarrow> find (\<lambda>y. f y = f x) xs = Some x"
  by (induction xs) (auto simp: image_iff)

lemma score_in_member:
  assumes "distinct (map lid rs)" "r \<in> set rs"
  shows "score_in rs (lid r) = score r"
proof -
  have "distinct (map lid (rev rs))" "r \<in> set (rev rs)"
    using assms by (simp_all add: rev_map[symmetric])
  from find_unique[OF this] show ?thesis
    by (simp add: score_in_def)
qed

lemma score_in_absent: "i \<notin> lid ` set rs \<Longrightarrow> score_in rs i = 0"
proof -
  assume "i \<notin> lid ` set rs"
  then have "find (\<lambda>r. lid r = i) (rev rs) = None"
    by (auto simp: find_None_iff)
  then show ?thesis
    by (simp add: score_in_def)
qed

text \<open>The first loop of \<^verbatim>\<open>combineResults\<close>.\<close>

lemma keyword_loop_keys:
  "fst ` set (keyword_loop kw m) = fst ` set m \<union> lid ` set kw"
  by (induction kw arbitrary: m) (auto simp: keys_map_set)

lemma keyword_loop_distinct:
  "distinct (map fst m) \<Longrightarrow> distinct (map fst (keyword_loop kw m))"
  by (induction kw arbitrary: m) (auto simp: distinct_map_set)

lemma keyword_loop_ids:
  "list_all (\<lambda>p. listing_id (entry_listing (snd p)) = fst p) m \<Longrightarrow>
   list_all (\<lambda>p. listing_id (entry_listing (snd p)) = fst p) (keyword_loop kw m)"
proof (induction kw arbitrary: m)
  case Nil
  then show ?case by simp
next
  case (Cons r kw)
  have "list_all (\<lambda>p. listing_id (entry_listing (snd p)) = fst p)
          (map_set (lid r) \<lparr>entry_listing = listing r, keywordScore = score r, semanticScore = 0\<rparr> m)"
    using Cons.prems by (intro list_all_map_set) simp_all
  from Cons.IH[OF this] show ?case by simp
qed

lemma keyword_loop_lookup:
  "map_of (keyword_loop kw m) i =
     (case find (\<lambda>r. lid r = i) (rev kw) of
        None \<Rightarrow> map_of m i
      | Some r \<Rightarrow> Some \<lparr>entry_listing = listing r, keywordScore = score r, semanticScore = 0\<rparr>)"
  by (induction kw arbitrary: m)
     (auto simp: find_snoc map_of_map_set split: option.splits)

text \<open>The second loop of \<^verbatim>\<open>combineResults\<close>.\<close>

lemma semantic_step_keys: "fst ` set (semantic_step r m) = insert (lid r) (fst ` set m)"
  by (simp add: semantic_step_def keys_map_set split: option.splits)

lemma semantic_step_distinct: "distinct (map fst m) \<Longrightarrow> distinct (map fst (semantic_step r m))"
  by (simp add: semantic_step_def distinct_map_set split: option.splits)

lemma semantic_step_ids:
  assumes "list_all (\<lambda>p. listing_id (entry_listing (snd p)) = fst p) m"
  shows "list_all (\<lambda>p. listing_id (entry_listing (snd p)) = fst p) (semantic_step r m)"
proof (cases "map_of m (lid r)")
  case None
  with assms show ?thesis
    by (simp add: semantic_step_def map_get_def list_all_map_set)
next
  case (Some ex)
  then have "(lid r, ex) \<in> set m" by (rule map_of_SomeD)
  with assms have "listing_id (entry_listing ex) = lid r"
    by (auto simp: list_all_iff)
  with assms Some show ?thesis
    by (simp add: semantic_step_def map_get_def list_all_map_set)
qed

text \<open>The scores that the step leaves under a key.\<close>

lemma semantic_step_scores:
  "map_option (\<lambda>e. (keywordScore e, semanticScore e)) (map_of (semantic_step r m) i) =
     (if lid r = i
      then Some (case map_of m i of Some existing \<Rightarrow> keywordScore existing | None \<Rightarrow> 0, score r)
      else map_option (\<lambda>e. (keywordScore e, semanticScore e)) (map_of m i))"
  by (auto simp: semantic_step_def map_get_def map_of_map_set split: option.splits)

lemma semantic_loop_keys:
  "fst ` set (semantic_loop sem m) = fst ` set m \<union> lid ` set sem"
proof (induction sem arbitrary: m)
  case Nil
  then show ?case by simp
next
  case (Cons r sem)
  show ?case
    unfolding semantic_loop.simps Cons.IH semantic_step_keys by auto
qed

lemma semantic_loop_distinct:
  "distinct (map fst m) \<Longrightarrow> distinct (map fst (semantic_loop sem m))"
proof (induction sem arbitrary: m)
  case Nil
  then show ?case by simp
next
  case (Cons r sem)
  show ?case
    unfolding semantic_loop.simps by (rule Cons.IH[OF semantic_step_distinct[OF Cons.prems]])
qed

lemma semantic_loop_ids:
  "list_all (\<lambda>p. listing_id (entry_listing (snd p)) = fst p) m \<Longrightarrow>
   list_all (\<lambda>p. listing_id (entry_listing (snd p)) = fst p) (semantic_loop sem m)"
proof (induction sem arbitrary: m)
  case Nil
  then show ?case by simp
next
  case (Cons r sem)
  show ?case
    unfolding semantic_loop.simps by (rule Cons.IH[OF semantic_step_ids[OF Cons.prems]])
qed

lemma semantic_loop_scores:
  "map_option (\<lambda>e. (keywordScore e, semanticScore e)) (map_of (semantic_loop sem m) i) =
     (case find (\<lambda>r. lid r = i) (rev sem) of
        None \<Rightarrow> map_option (\<lambda>e. (keywordScore e, semanticScore e)) (map_of m i)
      | Some r \<Rightarrow>
          Some (case map_of m i of Some existing \<Rightarrow> keywordScore existing | None \<Rightarrow> 0, score r))"
proof (induction sem arbitrary: m)
  case Nil
  then show ?case by simp
next
  case (Cons r sem)
  show ?case
    unfolding semantic_loop.simps Cons.IH[of "semantic_step r m"]
    using semantic_step_scores[of r m i]
    by (cases "map_of (semantic_step r m) i"; cases "map_of m i")
       (auto simp: find_snoc split: option.splits if_splits)
qed

text \<open>Every entry of the score map holds the two scores of its listing.\<close>

lemma scoreMap_entry:
  assumes mem: "(k, e) \<in> set (semantic_loop sem (keyword_loop kw []))"
  shows "listing_id (entry_listing e) = k \<and> keywordScore e = score_in kw k \<and>
         semanticScore e = score_in sem k"
proof -
  let ?KW = "keyword_loop kw []"
  let ?M = "semantic_loop sem ?KW"
  have ids: "list_all (\<lambda>p. listing_id (entry_listing (snd p)) = fst p) ?M"
    by (intro semantic_loop_ids keyword_loop_ids) simp
  have dist: "distinct (map fst ?M)"
    by (intro semantic_loop_distinct keyword_loop_distinct) simp
  from ids mem have 1: "listing_id (entry_listing e) = k"
    by (auto simp: list_all_iff)
  from dist mem have look: "map_of ?M k = Some e"
    by simp
  have kwl: "map_of ?KW k =
     (case find (\<lambda>r. lid r = k) (rev kw) of
        None \<Rightarrow> None
      | Some r \<Rightarrow> Some \<lparr>entry_listing = listing r, keywordScore = score r, semanticScore = 0\<rparr>)"
    using keyword_loop_lookup[of kw "[]" k] by (simp split: option.splits)
  have "keywordScore e = score_in kw k \<and> semanticScore e = score_in sem k"
    using semantic_loop_scores[of sem ?KW k] unfolding look kwl score_in_def
    by (auto split: option.splits)
  with 1 show ?thesis by simp
qed

lemma distinct_map_sort_desc: "distinct (map f (sort_desc g xs)) = distinct (map f xs)"
  by (simp add: distinct_map sort_desc_def)

lemma lid_fuse: "lid (fuse e) = listing_id (entry_listing e)"
  by (simp add: fuse_def)

lemma search_fused:
  "embedder eng \<noteq> None \<Longrightarrow> summaryStore eng = Some store \<Longrightarrow> 0 < size_of store \<Longrightarrow>
   semanticSearch eng q limit = Inr sem \<Longrightarrow> sem \<noteq> [] \<Longrightarrow>
   search eng q limit = Inr (combineResults (keywordSearch eng q) sem limit)"
  by (simp add: search_def Let_def)

text \<open>
  Claim C1, as amended. When the semantic search returns results, the output of
  \<^verbatim>\<open>search\<close> is the fused list truncated to \<open>limit\<close>. The fused list is sorted by
  descending combined score and holds every listing of either result set once. The
  combined score of a listing is 0.4 times its keyword score plus 0.6 times its semantic
  score, a missing side counting as 0. Its match type is combined exactly when both
  scores are positive; otherwise it is keyword when the keyword score is positive, and
  semantic in every other case. So a listing of both result sets is tagged combined
  only if both of its scores are positive.
\<close>

theorem fusion_law:
  assumes e: "embedder eng \<noteq> None" "summaryStore eng = Some store" "0 < size_of store"
    and s: "semanticSearch eng q limit = Inr sem" "sem \<noteq> []"
  shows "\<exists>fused.
     search eng q limit = Inr (take limit fused) \<and>
     sorted_wrt (\<lambda>a b. score b \<le> score a) fused \<and>
     lid ` set fused = lid ` set (keywordSearch eng q) \<union> lid ` set sem \<and>
     distinct (map lid fused) \<and>
     (\<forall>r\<in>set fused.
        score r = 0.4 * score_in (keywordSearch eng q) (lid r) + 0.6 * score_in sem (lid r) \<and>
        matchType r =
          (if 0 < score_in (keywordSearch eng q) (lid r) \<and> 0 < score_in sem (lid r) then Combined
           else if 0 < score_in (keywordSearch eng q) (lid r) then Keyword
           else Semantic)) \<and>
     (distinct (map lid (keywordSearch eng q)) \<and> distinct (map lid sem) \<longrightarrow>
        (\<forall>r\<in>set fused. \<forall>k\<in>set (keywordSearch eng q). \<forall>s\<in>set sem.
           lid k = lid r \<and> lid s = lid r \<longrightarrow>
             score r = 0.4 * score k + 0.6 * score s \<and>
             matchType r =
               (if 0 < score k \<and> 0 < score s then Combined
                else if 0 < score k then Keyword else Semantic)))"
proof -
  let ?kw = "keywordSearch eng q"
  let ?M = "semantic_loop sem (keyword_loop ?kw [])"
  let ?combined = "map fuse (map_values ?M)"
  let ?fused = "sort_desc score ?combined"
  have 1: "search eng q limit = Inr (take limit ?fused)"
    using search_fused[OF e s] by (simp add: combineResults_def Let_def)
  have 2: "sorted_wrt (\<lambda>a b. score b \<le> score a) ?fused"
    by (rule sorted_sort_desc)
  have ent: "listing_id (entry_listing x) = k \<and> keywordScore x = score_in ?kw k \<and>
             semanticScore x = score_in sem k" if "(k, x) \<in> set ?M" for k x
    using scoreMap_entry[OF that] .
  have lids: "map lid ?combined = map fst ?M"
    using ent by (auto simp: map_values_def lid_fuse)
  have keys: "fst ` set ?M = lid ` set ?kw \<union> lid ` set sem"
    by (simp add: semantic_loop_keys keyword_loop_keys)
  have 3: "lid ` set ?fused = lid ` set ?kw \<union> lid ` set sem"
  proof -
    have "lid ` set ?fused = set (map lid ?combined)"
      by (simp add: set_sort_desc image_image)
    also have "\<dots> = fst ` set ?M"
      unfolding lids by simp
    finally show ?thesis
      using keys by simp
  qed
  have 4: "distinct (map lid ?fused)"
    unfolding distinct_map_sort_desc lids
    by (intro semantic_loop_distinct keyword_loop_distinct) simp
  have 5: "\<forall>r\<in>set ?fused.
        score r = 0.4 * score_in ?kw (lid r) + 0.6 * score_in sem (lid r) \<and>
        matchType r =
          (if 0 < score_in ?kw (lid r) \<and> 0 < score_in sem (lid r) then Combined
           else if 0 < score_in ?kw (lid r) then Keyword
           else Semantic)"
  proof
    fix r assume "r \<in> set ?fused"
    then obtain k x where kx: "(k, x) \<in> set ?M" "r = fuse x"
      by (auto simp: set_sort_desc map_values_def)
    from ent[OF kx(1)] kx(2)
    show "score r = 0.4 * score_in ?kw (lid r) + 0.6 * score_in sem (lid r) \<and>
        matchType r =
          (if 0 < score_in ?kw (lid r) \<and> 0 < score_in sem (lid r) then Combined
           else if 0 < score_in ?kw (lid r) then Keyword
           else Semantic)"
      by (simp add: fuse_def KEYWORD_WEIGHT_def SEMANTIC_WEIGHT_def)
  qed
  have 6: "distinct (map lid ?kw) \<and> distinct (map lid sem) \<longrightarrow>
        (\<forall>r\<in>set ?fused. \<forall>k\<in>set ?kw. \<forall>s\<in>set sem.
           lid k = lid r \<and> lid s = lid r \<longrightarrow>
             score r = 0.4 * score k + 0.6 * score s \<and>
             matchType r =
               (if 0 < score k \<and> 0 < score s then Combined
                else if 0 < score k then Keyword else Semantic))"
  proof (intro impI ballI, elim conjE)
    fix r k s
    assume dk: "distinct (map lid ?kw)" and ds: "distinct (map lid sem)"
      and r: "r \<in> set ?fused" and k: "k \<in> set ?kw" and s: "s \<in> set sem"
      and eq: "lid k = lid r" "lid s = lid r"
    have "score_in ?kw (lid r) = score k"
      using score_in_member[OF dk k] eq by simp
    moreover have "score_in sem (lid r) = score s"
      using score_in_member[OF ds s] eq by simp
    ultimately show "score r = 0.4 * score k + 0.6 * score s \<and>
             matchType r =
               (if 0 < score k \<and> 0 < score s then Combined
                else if 0 < score k then Keyword else Semantic)"
      using 5 r by simp
  qed
  show ?thesis
    by (intro exI[of _ ?fused] conjI 1 2 3 4 5 6)
qed

lemma fusion_keyword:
  "keywordSearch fusion_engine ''patterns'' =
     [\<lparr>listing = example_listing ''ctx_ts01'' ''TypeScript Guide'', score = 1, matchType = Keyword\<rparr>,
      \<lparr>listing = example_listing ''ctx_sol02'' ''Solidity Smart Contracts'', score = 0.95,
        matchType = Keyword\<rparr>]"
  by (simp add: keywordSearch_def fusion_engine_def example_registry_def)

lemma fusion_query:
  "query fusion_store [1, 0] 10 =
     Inr [\<lparr>result_id = ''ctx_sol02'', similarity = 1, result_metadata = [(''packageId'', ''ctx_sol02'')]\<rparr>,
          \<lparr>result_id = ''ctx_py03'', similarity = 0, result_metadata = [(''packageId'', ''ctx_py03'')]\<rparr>,
          \<lparr>result_id = ''ctx_ts01'', similarity = - 1, result_metadata = [(''packageId'', ''ctx_ts01'')]\<rparr>]"
  by (simp add: query_def fusion_store_def map_values_def cosineSimilarity_def sort_desc_def)

lemma fusion_semantic:
  "semanticSearch fusion_engine ''patterns'' 10 =
     Inr [\<lparr>listing = example_listing ''ctx_sol02'' ''Solidity Smart Contracts'', score = 1,
            matchType = Semantic\<rparr>,
          \<lparr>listing = example_listing ''ctx_py03'' ''Python Machine Learning'', score = 0,
            matchType = Semantic\<rparr>,
          \<lparr>listing = example_listing ''ctx_ts01'' ''TypeScript Guide'', score = - 1,
            matchType = Semantic\<rparr>]"
  by (simp add: semanticSearch_def fusion_engine_def fusion_query example_registry_def)

lemma fusion_search:
  "search fusion_engine ''patterns'' 10 =
     Inr [\<lparr>listing = example_listing ''ctx_sol02'' ''Solidity Smart Contracts'', score = 0.98,
            matchType = Combined\<rparr>,
          \<lparr>listing = example_listing ''ctx_py03'' ''Python Machine Learning'', score = 0,
            matchType = Semantic\<rparr>,
          \<lparr>listing = example_listing ''ctx_ts01'' ''TypeScript Guide'', score = - 0.2,
            matchType = Keyword\<rparr>]"
  by (simp add: search_def fusion_semantic fusion_keyword combineResults_def Let_def
      map_values_def map_get_def semantic_step_def fuse_def KEYWORD_WEIGHT_def
      SEMANTIC_WEIGHT_def sort_desc_def example_listing_def)
     (simp add: fusion_engine_def fusion_store_def size_of_def)

theorem fusion_law_witness:
  "embedder fusion_engine \<noteq> None \<and> summaryStore fusion_engine = Some fusion_store \<and>
   0 < size_of fusion_store \<and>
   (\<exists>sem. semanticSearch fusion_engine ''patterns'' 10 = Inr sem \<and> sem \<noteq> []) \<and>
   (\<exists>fused. search fusion_engine ''patterns'' 10 = Inr (take 10 fused) \<and>
      sorted_wrt (\<lambda>a b. score b \<le> score a) fused \<and>
      lid ` set fused = {''ctx_ts01'', ''ctx_sol02'', ''ctx_py03''})"
proof -
  let ?sem = "[\<lparr>listing = example_listing ''ctx_sol02'' ''Solidity Smart Contracts'', score = 1,
            matchType = Semantic\<rparr>,
          \<lparr>listing = example_listing ''ctx_py03'' ''Python Machine Learning'', score = 0,
            matchType = Semantic\<rparr>,
          \<lparr>listing = example_listing ''ctx_ts01'' ''TypeScript Guide'', score = - 1,
            matchType = Semantic\<rparr>]"
  have e: "embedder fusion_engine \<noteq> None" "summaryStore fusion_engine = Some fusion_store"
    "0 < size_of fusion_store"
    by (simp_all add: fusion_engine_def fusion_store_def size_of_def)
  have ne: "?sem \<noteq> []"
    by simp
  from fusion_law[OF e fusion_semantic ne]
  obtain fused where f: "search fusion_engine ''patterns'' 10 = Inr (take 10 fused)"
    "sorted_wrt (\<lambda>a b. score b \<le> score a) fused"
    "lid ` set fused = lid ` set (keywordSearch fusion_engine ''patterns'') \<union> lid ` set ?sem"
    by blast
  have "lid ` set fused = {''ctx_ts01'', ''ctx_sol02'', ''ctx_py03''}"
    unfolding f(3) by (auto simp: fusion_keyword example_listing_def)
  with f(1,2) e fusion_semantic ne show ?thesis
    by blast
qed

text \<open>
  The claim as stated fails: the first keyword result (score 1) is also a semantic
  result, with similarity \<open>-1\<close>; its fused score is \<open>-0.2\<close> and its match type is
  keyword, not combined.
\<close>

theorem fusion_matchType_counterexample:
  "keywordSearch fusion_engine ''patterns'' =
     [\<lparr>listing = example_listing ''ctx_ts01'' ''TypeScript Guide'', score = 1, matchType = Keyword\<rparr>,
      \<lparr>listing = example_listing ''ctx_sol02'' ''Solidity Smart Contracts'', score = 0.95,
        matchType = Keyword\<rparr>] \<and>
   semanticSearch fusion_engine ''patterns'' 10 =
     Inr [\<lparr>listing = example_listing ''ctx_sol02'' ''Solidity Smart Contracts'', score = 1,
            matchType = Semantic\<rparr>,
          \<lparr>listing = example_listing ''ctx_py03'' ''Python Machine Learning'', score = 0,
            matchType = Semantic\<rparr>,
          \<lparr>listing = example_listing ''ctx_ts01'' ''TypeScript Guide'', score = - 1,
            matchType = Semantic\<rparr>] \<and>
   search fusion_engine ''patterns'' 10 =
     Inr [\<lparr>listing = example_listing ''ctx_sol02'' ''Solidity Smart Contracts'', score = 0.98,
            matchType = Combined\<rparr>,
          \<lparr>listing = example_listing ''ctx_py03'' ''Python Machine Learning'', score = 0,
            matchType = Semantic\<rparr>,
          \<lparr>listing = example_listing ''ctx_ts01'' ''TypeScript Guide'', score = - 0.2,
            matchType = Keyword\<rparr>]"
  by (simp add: fusion_keyword fusion_semantic fusion_search)

end
